theory Spec2Isabelle
  imports Complex_Main
begin

unbundle bit_operations_syntax

section \<open>Paragraph layout of STLL: the data model\<close>

text \<open>
  The development follows \<^verbatim>\<open>src/src/layoutParagraph.cpp\<close>. Code points
  (\<^verbatim>\<open>char32_t\<close>), sizes and indices are natural numbers; the 26.6 fixed-point
  coordinates (\<^verbatim>\<open>int32_t\<close>, \<^verbatim>\<open>int\<close>) are integers, signed overflow
  being undefined in the source and outside every property stated here.
  The classes of \<^verbatim>\<open>stll/layouter.h\<close> are records with the members this file reads.
\<close>

type_synonym char32 = nat

datatype Color_c = Color_c nat nat nat nat

datatype command_kind = CMD_GLYPH | CMD_RECT | CMD_IMAGE

text \<open>
  A font face (\<^verbatim>\<open>FontFace_c\<close>, held by \<^verbatim>\<open>std::shared_ptr\<close>): the pointer is
  \<open>None\<close> when null; \<open>face\<close> stands for the identity of the object and
  \<open>glyphs\<close> are the code points it has a glyph for.
\<close>

record FontFace_c =
  face :: nat
  getAscender :: int
  getDescender :: int
  glyphs :: "char32 list"

definition containsGlyph :: "FontFace_c \<Rightarrow> char32 \<Rightarrow> bool" where
  "containsGlyph ff cp = (cp \<in> set (glyphs ff))"

text \<open>The font set of an attribute (\<^verbatim>\<open>Font_c\<close>): a fallback resolver by code point.\<close>

record Font_c =
  get :: "char32 \<Rightarrow> FontFace_c option"
  getUnderlinePosition :: int
  getUnderlineThickness :: int
  valid :: bool

record CommandData_c =
  command :: command_kind
  cmd_x :: int
  cmd_y :: int
  cmd_w :: int
  cmd_h :: int
  glyphIndex :: nat
  cmd_font :: "FontFace_c option"
  cmd_c :: Color_c
  cmd_blurr :: nat

record Rectangle_c =
  rect_x :: int
  rect_y :: int
  rect_w :: int
  rect_h :: int

record LinkInformation_c =
  url :: string
  areas :: "Rectangle_c list"

text \<open>
  The result of a layout (\<^verbatim>\<open>TextLayout_c\<close>): the draw commands, the links, the first
  baseline, the height and the left and right envelope. A default-constructed layout has
  no command and no link.
\<close>

record TextLayout_c =
  data :: "CommandData_c list"
  links :: "LinkInformation_c list"
  firstBaseline :: int
  height :: int
  lay_left :: int
  lay_right :: int

definition TextLayout_new :: TextLayout_c where
  "TextLayout_new = \<lparr>data = [], links = [], firstBaseline = 0, height = 0, lay_left = 0, lay_right = 0\<rparr>"

definition addCommand :: "CommandData_c \<Rightarrow> TextLayout_c \<Rightarrow> TextLayout_c" where
  "addCommand cc l = l\<lparr>data := data l @ [cc]\<rparr>"

record Shadow_c =
  sh_dx :: int
  sh_dy :: int
  sh_c :: Color_c
  sh_blurr :: nat

text \<open>
  The underline bit of the flags of an attribute. Its value is that of the header; what
  is stated below holds for any bit.
\<close>

definition FL_UNDERLINE :: nat where
  "FL_UNDERLINE = 1"

record CodepointAttributes_c =
  att_c :: Color_c
  font :: Font_c
  lang :: string
  flags :: nat
  shadows :: "Shadow_c list"
  baseline_shift :: int
  inlay :: "TextLayout_c option"
  link :: nat

text \<open>
  The attribute index (\<^verbatim>\<open>AttributeIndex_c\<close>) may be sparse: \<open>hasAttribute\<close> reports
  presence, \<open>attribute_at\<close> is its \<^verbatim>\<open>operator[]\<close>.
\<close>

record AttributeIndex_c =
  hasAttribute :: "nat \<Rightarrow> bool"
  attribute_at :: "nat \<Rightarrow> CodepointAttributes_c"

datatype align_t = ALG_LEFT | ALG_RIGHT | ALG_CENTER | ALG_JUSTIFY_LEFT | ALG_JUSTIFY_RIGHT

record LayoutProperties_c =
  align :: align_t
  indent :: int
  ltr :: bool
  hyphenate :: bool
  optimizeLinebreaks :: bool
  underlineFont :: Font_c
  plinks :: "string list"

record Shape_c =
  getLeft :: "int \<Rightarrow> int \<Rightarrow> int"
  getRight :: "int \<Rightarrow> int \<Rightarrow> int"
  getLeft2 :: "int \<Rightarrow> int \<Rightarrow> int"
  getRight2 :: "int \<Rightarrow> int \<Rightarrow> int"

text \<open>
  What a call can end with besides a layout: the two exceptions the file throws
  (\<open>BidiFailure\<close>, \<open>NonLinearScript\<close>), and the places where the source reads a
  vector out of range, dereferences a null font, asks for a vector of negative size or
  fails its \<^verbatim>\<open>assert\<close> (undefined behaviour, a library exception or an abort there).
\<close>

datatype LayoutException_c =
  BidiFailure | NonLinearScript | OutOfRange | NullFont | LengthError | AssertFailed

text \<open>The break classes of liblinebreak (\<^verbatim>\<open>linebreak.h\<close>, \<^verbatim>\<open>wordbreak.h\<close>).\<close>

definition LINEBREAK_MUSTBREAK :: nat where "LINEBREAK_MUSTBREAK = 0"
definition LINEBREAK_ALLOWBREAK :: nat where "LINEBREAK_ALLOWBREAK = 1"
definition LINEBREAK_NOBREAK :: nat where "LINEBREAK_NOBREAK = 2"
definition LINEBREAK_INSIDEACHAR :: nat where "LINEBREAK_INSIDEACHAR = 3"
definition WORDBREAK_BREAK :: nat where "WORDBREAK_BREAK = 0"

definition SHY :: char32 where "SHY = 0xAD"
definition SPACE :: char32 where "SPACE = 0x20"
definition NEWLINE :: char32 where "NEWLINE = 0x0A"

section \<open>The view of the text\<close>

record LayoutDataView =
  txt32 :: "char32 list"
  idx :: "nat list"
  attr :: AttributeIndex_c
  embeddingLevels :: "nat list"
  linebreaks :: "nat list"
  hyphens :: "bool list"

definition isBidiCharacter :: "char32 \<Rightarrow> bool" where
  "isBidiCharacter ch = (if ch = 0x202A \<or> ch = 0x202B \<or> ch = 0x202C then True else False)"

text \<open>The loop of the constructor: \<open>tx\<close> and \<open>ix\<close> are \<^verbatim>\<open>txt32\<close> and \<^verbatim>\<open>idx\<close> so far.\<close>

function view_copy :: "char32 list \<Rightarrow> nat \<Rightarrow> char32 list \<Rightarrow> nat list \<Rightarrow> char32 list \<times> nat list" where
  "view_copy t i tx ix =
     (if i < length t then
        (if \<not> isBidiCharacter (t ! i) then view_copy t (i + 1) (tx @ [t ! i]) (ix @ [i])
         else view_copy t (i + 1) tx ix)
      else (tx, ix))"
  by pat_completeness auto
termination
  by (relation "measure (\<lambda>(t, i, tx, ix). length t - i)") auto

definition LayoutDataView_new ::
  "char32 list \<Rightarrow> AttributeIndex_c \<Rightarrow> nat list \<Rightarrow> LayoutDataView" where
  "LayoutDataView_new t a e =
     (let (tx, ix) = view_copy t 0 [] [] in
      \<lparr>txt32 = tx, idx = ix, attr = a, embeddingLevels = e,
       linebreaks = replicate (length ix) 0, hyphens = []\<rparr>)"

definition vsize :: "LayoutDataView \<Rightarrow> nat" where
  "vsize v = length (txt32 v)"

text \<open>Reading a string at its size gives the terminating 0.\<close>

definition txt_at :: "LayoutDataView \<Rightarrow> nat \<Rightarrow> char32" where
  "txt_at v i = (txt32 v @ [0]) ! i"

definition att :: "LayoutDataView \<Rightarrow> nat \<Rightarrow> CodepointAttributes_c" where
  "att v i = attribute_at (attr v) (idx v ! i)"

definition hasatt :: "LayoutDataView \<Rightarrow> nat \<Rightarrow> bool" where
  "hasatt v i = hasAttribute (attr v) (idx v ! i)"

definition emb :: "LayoutDataView \<Rightarrow> nat \<Rightarrow> nat" where
  "emb v i = embeddingLevels v ! (idx v ! i)"

definition lnb :: "LayoutDataView \<Rightarrow> nat \<Rightarrow> nat" where
  "lnb v i = linebreaks v ! i"

text \<open>
  \<^verbatim>\<open>sethyp\<close> resizes the mask to the size of the view and writes position \<open>i\<close>;
  writing at or past the size is out of range. The mask is the only member the
  hyphenation analysis changes, so it is the state threaded through it.
\<close>

definition resize :: "nat \<Rightarrow> 'a \<Rightarrow> 'a list \<Rightarrow> 'a list" where
  "resize n d xs = (if length xs < n then xs @ replicate (n - length xs) d else take n xs)"

definition sethyp :: "LayoutDataView \<Rightarrow> nat \<Rightarrow> bool list \<Rightarrow> LayoutException_c + bool list" where
  "sethyp v i hs =
     (let hs' = resize (length (idx v)) False hs
      in if i < length hs' then Inr (hs'[i := True]) else Inl OutOfRange)"

definition hyp :: "LayoutDataView \<Rightarrow> nat \<Rightarrow> bool" where
  "hyp v i = (i < length (hyphens v) \<and> hyphens v ! i)"

declare view_copy.simps [simp del]

section \<open>Line-break and hyphenation analysis\<close>

text \<open>
  The analysers of liblinebreak and the hyphenation dictionaries are collaborators of
  the file, so they are arguments here: \<open>set_linebreaks_utf32 s lang\<close> and
  \<open>set_wordbreaks_utf32 s lang\<close> give the break classes written for the code points
  \<open>s\<close>, \<open>getHyphenDict lang\<close> is the dictionary of a language (\<open>None\<close> when there
  is none), and a dictionary maps a word to the vector its \<^verbatim>\<open>hyphenate\<close> fills.
\<close>

record Hyphens =
  hyphens_count :: nat
  rep :: "char32 list"

type_synonym HyphenDict = "char32 list \<Rightarrow> Hyphens list"

record Analysers =
  set_linebreaks_utf32 :: "char32 list \<Rightarrow> string \<Rightarrow> nat list"
  set_wordbreaks_utf32 :: "char32 list \<Rightarrow> string \<Rightarrow> nat list"
  getHyphenDict :: "string \<Rightarrow> HyphenDict option"

text \<open>Writing \<open>ys\<close> into the vector \<open>xs\<close> from offset \<open>off\<close> on.\<close>

definition overwrite :: "'a list \<Rightarrow> nat \<Rightarrow> 'a list \<Rightarrow> 'a list" where
  "overwrite xs off ys = take off xs @ ys @ drop (off + length ys) xs"

text \<open>
  \<^verbatim>\<open>c_str() + off\<close> read for \<open>n\<close> code points: the string is followed by its
  terminating 0.
\<close>

definition c_str_slice :: "char32 list \<Rightarrow> nat \<Rightarrow> nat \<Rightarrow> char32 list" where
  "c_str_slice s off n = take n (drop off (s @ [0]))"

function same_lang_end :: "LayoutDataView \<Rightarrow> nat \<Rightarrow> nat \<Rightarrow> nat" where
  "same_lang_end v runstart runpos =
     (if runpos < vsize v \<and> lang (att v runstart) = lang (att v runpos)
      then same_lang_end v runstart (runpos + 1) else runpos)"
  by pat_completeness auto
termination
  by (relation "measure (\<lambda>(v, runstart, runpos). vsize v - runpos)") auto

declare same_lang_end.simps [simp del]

lemma same_lang_end_ge: "runpos \<le> same_lang_end v runstart runpos"
  by (induction v runstart runpos rule: same_lang_end.induct)
     (subst same_lang_end.simps, auto)

function getLinebreaks_loop :: "Analysers \<Rightarrow> LayoutDataView \<Rightarrow> nat \<Rightarrow> nat list \<Rightarrow> nat list" where
  "getLinebreaks_loop an v runstart lb =
     (if runstart < vsize v then
        (let runpos = same_lang_end v runstart (runstart + 1);
             n = runpos - runstart + (if runpos < vsize v then 1 else 0);
             out = set_linebreaks_utf32 an (c_str_slice (txt32 v) runstart n) (lang (att v runstart))
         in getLinebreaks_loop an v runpos (overwrite lb runstart (take n out)))
      else lb)"
  by pat_completeness auto
termination
proof (relation "measure (\<lambda>(an, v, runstart, lb). vsize v - runstart)", goal_cases)
  case 1
  show ?case by simp
next
  case (2 an v runstart lb runpos n out)
  then show ?case using same_lang_end_ge [of "runstart + 1" v runstart] by simp
qed

declare getLinebreaks_loop.simps [simp del]

definition getLinebreaks :: "Analysers \<Rightarrow> LayoutDataView \<Rightarrow> LayoutDataView" where
  "getLinebreaks an v = v\<lparr>linebreaks := getLinebreaks_loop an v 0 (linebreaks v)\<rparr>"

text \<open>
  \<^verbatim>\<open>find_first_of(ch, pos)\<close> of the view's text: the first position from \<open>pos\<close> on
  that holds \<open>ch\<close>; \<open>None\<close> is \<^verbatim>\<open>npos\<close>, which is not below any index.
\<close>

function find_first_of :: "char32 list \<Rightarrow> char32 \<Rightarrow> nat \<Rightarrow> nat option" where
  "find_first_of s ch pos =
     (if pos < length s then (if s ! pos = ch then Some pos else find_first_of s ch (pos + 1))
      else None)"
  by pat_completeness auto
termination
  by (relation "measure (\<lambda>(s, ch, pos). length s - pos)") auto

declare find_first_of.simps [simp del]

definition not_below :: "nat option \<Rightarrow> nat \<Rightarrow> bool" where
  "not_below r j = (case r of None \<Rightarrow> True | Some p \<Rightarrow> p \<ge> j)"

text \<open>The end of the language section: the loop on \<open>i\<close> of \<^verbatim>\<open>getHyphens\<close>.\<close>

function section_end :: "LayoutDataView \<Rightarrow> string \<Rightarrow> nat \<Rightarrow> nat" where
  "section_end v curLang i =
     (if i < vsize v \<and> hasatt v i \<and> lang (att v i) = curLang
      then section_end v curLang (i + 1) else i)"
  by pat_completeness auto
termination
  by (relation "measure (\<lambda>(v, curLang, i). vsize v - i)") auto

declare section_end.simps [simp del]

lemma section_end_ge: "i \<le> section_end v curLang i"
  by (induction v curLang i rule: section_end.induct)
     (subst section_end.simps, auto)

text \<open>
  The loop on \<open>l\<close>: the positions of the word that the dictionary marks with an odd
  count and no replacement text are set in the mask. \<open>n\<close> is the bound
  \<^verbatim>\<open>j-wordstart+1\<close>, \<open>base\<close> is \<^verbatim>\<open>sectionstart+wordstart\<close>.
\<close>

function mark_word ::
  "LayoutDataView \<Rightarrow> Hyphens list \<Rightarrow> nat \<Rightarrow> nat \<Rightarrow> nat \<Rightarrow> bool list \<Rightarrow> LayoutException_c + bool list" where
  "mark_word v hy base n l hs =
     (if l < n then
        (if l \<ge> length hy then Inl OutOfRange
         else if hyphens_count (hy ! l) mod 2 \<noteq> 0 \<and> length (rep (hy ! l)) = 0 then
           (case sethyp v (base + l + 1) hs of
              Inl e \<Rightarrow> Inl e
            | Inr hs' \<Rightarrow> mark_word v hy base n (l + 1) hs')
         else mark_word v hy base n (l + 1) hs)
      else Inr hs)"
  by pat_completeness auto
termination
  by (relation "measure (\<lambda>(v, hy, base, n, l, hs). n - l)") auto

declare mark_word.simps [simp del]

text \<open>The loop on \<open>j\<close>: the words between word breaks are fed to the dictionary.\<close>

function hyphenate_words ::
  "LayoutDataView \<Rightarrow> HyphenDict \<Rightarrow> nat \<Rightarrow> nat list \<Rightarrow> nat \<Rightarrow> nat \<Rightarrow> bool list
   \<Rightarrow> LayoutException_c + bool list" where
  "hyphenate_words v dict sectionstart breaks wordstart j hs =
     (if j < length breaks then
        (if breaks ! (j - 1) = WORDBREAK_BREAK then
           (if not_below (find_first_of (txt32 v) SHY wordstart) j then
              (case mark_word v (dict (take (j - wordstart) (drop wordstart (txt32 v))))
                      (sectionstart + wordstart) (j - wordstart + 1) 0 hs of
                 Inl e \<Rightarrow> Inl e
               | Inr hs' \<Rightarrow> hyphenate_words v dict sectionstart breaks j (j + 1) hs')
            else hyphenate_words v dict sectionstart breaks j (j + 1) hs)
         else hyphenate_words v dict sectionstart breaks wordstart (j + 1) hs)
      else Inr hs)"
  by pat_completeness auto
termination
  by (relation "measure (\<lambda>(v, dict, sectionstart, breaks, wordstart, j, hs). length breaks - j)") auto

declare hyphenate_words.simps [simp del]

text \<open>
  The loop on \<open>sectionstart\<close>. Besides the mask it returns the dictionary look-ups in
  the order they are made, each with the section it is made for: (start, end, language
  asked for).
\<close>

function getHyphens_loop ::
  "Analysers \<Rightarrow> LayoutDataView \<Rightarrow> nat \<Rightarrow> bool list \<times> (nat \<times> nat \<times> string) list
   \<Rightarrow> LayoutException_c + bool list \<times> (nat \<times> nat \<times> string) list" where
  "getHyphens_loop an v sectionstart st =
     (if sectionstart < vsize v then
        (if hasatt v sectionstart \<and> lang (att v sectionstart) \<noteq> [] then
           (let curLang = lang (att v 0);
                i = section_end v curLang (sectionstart + 1);
                lookups = snd st @ [(sectionstart, i, curLang)]
            in case getHyphenDict an curLang of
                 None \<Rightarrow> getHyphens_loop an v i (fst st, lookups)
               | Some dict \<Rightarrow>
                   (let n = i - sectionstart + 1;
                        out = set_wordbreaks_utf32 an (c_str_slice (txt32 v) sectionstart n) curLang;
                        breaks = overwrite (replicate n 0) 0 (take n out) @ [WORDBREAK_BREAK]
                    in case hyphenate_words v dict sectionstart breaks 0 1 (fst st) of
                         Inl e \<Rightarrow> Inl e
                       | Inr hs' \<Rightarrow> getHyphens_loop an v i (hs', lookups)))
         else getHyphens_loop an v (sectionstart + 1) st)
      else Inr st)"
  by pat_completeness auto
termination
proof (relation "measure (\<lambda>(an, v, sectionstart, st). vsize v - sectionstart)", goal_cases)
  case 1
  show ?case by simp
next
  case (2 an v sectionstart st curLang i lookups)
  then show ?case using section_end_ge [of "sectionstart + 1" v curLang] by simp
next
  case (3 an v sectionstart st curLang i lookups dict n out breaks hs')
  then show ?case using section_end_ge [of "sectionstart + 1" v curLang] by simp
next
  case 4
  then show ?case by simp
qed

declare getHyphens_loop.simps [simp del]

definition getHyphens :: "Analysers \<Rightarrow> LayoutDataView \<Rightarrow> LayoutException_c + LayoutDataView" where
  "getHyphens an v =
     (case getHyphens_loop an v 0 (hyphens v, []) of
        Inl e \<Rightarrow> Inl e
      | Inr st \<Rightarrow> Inr (v\<lparr>hyphens := fst st\<rparr>))"

text \<open>The dictionary look-ups \<^verbatim>\<open>getHyphens\<close> makes on a view, in order.\<close>

definition getHyphens_lookups :: "Analysers \<Rightarrow> LayoutDataView \<Rightarrow> (nat \<times> nat \<times> string) list" where
  "getHyphens_lookups an v =
     (case getHyphens_loop an v 0 (hyphens v, []) of Inl e \<Rightarrow> [] | Inr st \<Rightarrow> snd st)"

section \<open>Runs\<close>

text \<open>
  Integer division of C++ truncates towards zero. A \<^verbatim>\<open>double\<close> is modelled by the
  exact rational it approximates; converting it to an integer truncates towards zero.
\<close>

definition cdiv :: "int \<Rightarrow> int \<Rightarrow> int" where
  "cdiv a b = sgn a * sgn b * (\<bar>a\<bar> div \<bar>b\<bar>)"

definition to_int :: "rat \<Rightarrow> int" where
  "to_int q = (if 0 \<le> q then \<lfloor>q\<rfloor> else \<lceil>q\<rceil>)"

text \<open>
  A finished run (\<^verbatim>\<open>runInfo\<close>): the draw commands with their layer, the advance,
  the embedding level, the line-break class after the run, the font, whether it is a
  space or a soft hyphen, ascender and descender, and the link boxes.
\<close>

record runInfo =
  run :: "(nat \<times> CommandData_c) list"
  dx :: int
  dy :: int
  embeddingLevel :: nat
  linebreak :: nat
  run_font :: "FontFace_c option"
  space :: bool
  shy :: bool
  ascender :: int
  descender :: int
  run_links :: "LinkInformation_c list"

text \<open>
  One glyph as the shaper returns it (\<^verbatim>\<open>hb_glyph_info_t\<close> and
  \<^verbatim>\<open>hb_glyph_position_t\<close>). Setting up the buffer and shaping are the shaper's
  business: \<^verbatim>\<open>createRun\<close> is given the glyphs.
\<close>

record Glyph =
  codepoint :: nat
  cluster :: nat
  x_offset :: int
  y_offset :: int
  x_advance :: int
  y_advance :: int

text \<open>The two constructors of a draw command this file calls: a glyph and a rectangle.\<close>

definition CommandData_glyph ::
  "FontFace_c option \<Rightarrow> nat \<Rightarrow> int \<Rightarrow> int \<Rightarrow> Color_c \<Rightarrow> nat \<Rightarrow> CommandData_c" where
  "CommandData_glyph f gi gx gy col bl =
     \<lparr>command = CMD_GLYPH, cmd_x = gx, cmd_y = gy, cmd_w = 0, cmd_h = 0, glyphIndex = gi,
      cmd_font = f, cmd_c = col, cmd_blurr = bl\<rparr>"

definition CommandData_rect :: "int \<Rightarrow> int \<Rightarrow> int \<Rightarrow> int \<Rightarrow> Color_c \<Rightarrow> nat \<Rightarrow> CommandData_c" where
  "CommandData_rect gx gy gw gh col bl =
     \<lparr>command = CMD_RECT, cmd_x = gx, cmd_y = gy, cmd_w = gw, cmd_h = gh, glyphIndex = 0,
      cmd_font = None, cmd_c = col, cmd_blurr = bl\<rparr>"

text \<open>
  The shadows of an underline (the loop on \<open>j\<close> of \<^verbatim>\<open>addUnderline\<close>): shadow \<open>j\<close> of
  the \<open>n\<close> shadows of the attribute goes to layer \<open>n - j\<close>.
\<close>

definition underline_shadows ::
  "Shadow_c list \<Rightarrow> int \<Rightarrow> int \<Rightarrow> int \<Rightarrow> int \<Rightarrow> (nat \<times> CommandData_c) list" where
  "underline_shadows shs gx gy gw gh =
     map (\<lambda>j. (length shs - j,
               CommandData_rect (gx + sh_dx (shs ! j)) (gy + sh_dy (shs ! j)) gw gh
                 (sh_c (shs ! j)) (sh_blurr (shs ! j))))
         [0..<length shs]"

definition addUnderline ::
  "int \<Rightarrow> int \<Rightarrow> LayoutProperties_c \<Rightarrow> CodepointAttributes_c \<Rightarrow> (nat \<times> CommandData_c) list" where
  "addUnderline gx gw prop a =
     (if flags a AND FL_UNDERLINE \<noteq> 0 then
        (let uf = (if valid (underlineFont prop) then underlineFont prop else font a);
             gy = - (getUnderlinePosition uf + cdiv (getUnderlineThickness uf) 2);
             gh = max 64 (getUnderlineThickness uf)
         in underline_shadows (shadows a) gx gy gw gh
            @ [(0, CommandData_rect gx gy gw gh (att_c a) 0)])
      else [])"

text \<open>
  The shadows of a glyph (the loop on \<open>j\<close> of \<^verbatim>\<open>createRun\<close>): the loop runs over the
  \<open>n\<close> shadows of the attribute at the start of the run and reads those of the glyph's own
  attribute, which is out of range when that one has fewer.
\<close>

definition glyph_shadows ::
  "nat \<Rightarrow> Shadow_c list \<Rightarrow> FontFace_c option \<Rightarrow> nat \<Rightarrow> int \<Rightarrow> int
   \<Rightarrow> LayoutException_c + (nat \<times> CommandData_c) list" where
  "glyph_shadows n shs f gi gx gy =
     (if length shs < n then Inl OutOfRange
      else Inr (map (\<lambda>j. (n - j,
                          CommandData_glyph f gi (gx + sh_dx (shs ! j)) (gy + sh_dy (shs ! j))
                            (sh_c (shs ! j)) (sh_blurr (shs ! j))))
                    [0..<n]))"

text \<open>
  What a glyph that is drawn adds to the run: its shadows, the glyph itself on layer 0
  and its underline.
\<close>

definition glyph_commands ::
  "nat \<Rightarrow> CodepointAttributes_c \<Rightarrow> LayoutProperties_c \<Rightarrow> FontFace_c option \<Rightarrow> nat \<Rightarrow> int \<Rightarrow> int
   \<Rightarrow> int \<Rightarrow> LayoutException_c + (nat \<times> CommandData_c) list" where
  "glyph_commands n a prop f gi gx gy adv =
     (case glyph_shadows n (shadows a) f gi gx gy of
        Inl e \<Rightarrow> Inl e
      | Inr shadow_cmds \<Rightarrow>
          Inr (shadow_cmds @ [(0, CommandData_glyph f gi gx gy (att_c a) 0)]
               @ addUnderline gx (adv + 64) prop a))"

definition LinkInformation_new :: "string \<Rightarrow> Rectangle_c list \<Rightarrow> LinkInformation_c" where
  "LinkInformation_new u rs = \<lparr>url = u, areas = rs\<rparr>"

text \<open>The link that is open while the glyphs are walked.\<close>

record LinkTrack =
  curLink :: nat
  linkRect :: Rectangle_c
  linkStart :: int
  track_dx :: int
  track_links :: "LinkInformation_c list"

definition link_url :: "LayoutProperties_c \<Rightarrow> nat \<Rightarrow> LayoutException_c + string" where
  "link_url prop k = (if k - 1 < length (plinks prop) \<and> 0 < k then Inr (plinks prop ! (k - 1))
                      else Inl OutOfRange)"

text \<open>
  The first pass over the glyphs: the offsets become absolute in the run, the advance
  is summed up and the link boxes are collected.
\<close>

fun positions ::
  "LayoutDataView \<Rightarrow> LayoutProperties_c \<Rightarrow> int \<Rightarrow> int \<Rightarrow> Glyph list \<Rightarrow> LinkTrack
   \<Rightarrow> LayoutException_c + Glyph list \<times> LinkTrack" where
  "positions v prop asc desc [] st = Inr ([], st)"
| "positions v prop asc desc (g # gs) st =
     (if cluster g \<ge> length (idx v) then Inl OutOfRange
      else
        (let a = att v (cluster g) in
         if inlay a = None then
           (let st1 = (if (curLink st = 0 \<and> link a \<noteq> 0) \<or> curLink st \<noteq> link a
                       then st\<lparr>linkStart := track_dx st\<rparr> else st);
                g' = g\<lparr>x_offset := x_offset g + track_dx st1\<rparr>;
                st2 = st1\<lparr>track_dx := track_dx st1 + x_advance g\<rparr>
            in if link a \<noteq> 0 then
                 (case (if curLink st2 \<noteq> 0 \<and> curLink st2 \<noteq> link a
                        then (case link_url prop (curLink st2) of
                                Inl e \<Rightarrow> Inl e
                              | Inr u \<Rightarrow> Inr (st2\<lparr>track_links := track_links st2 @ [LinkInformation_new u [linkRect st2]],
                                                 curLink := 0\<rparr>))
                        else Inr st2) of
                    Inl e \<Rightarrow> Inl e
                  | Inr st3 \<Rightarrow>
                      (let st4 = (if curLink st3 = 0 then
                                    st3\<lparr>linkRect := \<lparr>rect_x = linkStart st3, rect_y = - asc,
                                                      rect_w = track_dx st3 - linkStart st3,
                                                      rect_h = asc - desc\<rparr>,
                                        curLink := link a\<rparr>
                                  else st3\<lparr>linkRect := (linkRect st3)\<lparr>rect_w := track_dx st3 - linkStart st3\<rparr>\<rparr>)
                       in case positions v prop asc desc gs st4 of
                            Inl e \<Rightarrow> Inl e
                          | Inr (gs', st') \<Rightarrow> Inr (g' # gs', st')))
               else
                 (case positions v prop asc desc gs st2 of
                    Inl e \<Rightarrow> Inl e
                  | Inr (gs', st') \<Rightarrow> Inr (g' # gs', st')))
         else
           (case positions v prop asc desc gs st of
              Inl e \<Rightarrow> Inl e
            | Inr (gs', st') \<Rightarrow> Inr (g # gs', st'))))"

text \<open>
  The second pass: the commands of every glyph in the order of the walk, with the
  advance \<open>rdx\<close> of the run so far (an inline object adds its width to it). The walk
  ends with the exception when a glyph that is drawn has a vertical advance.
\<close>

fun emit_glyphs ::
  "LayoutDataView \<Rightarrow> LayoutProperties_c \<Rightarrow> nat \<Rightarrow> FontFace_c option \<Rightarrow> int \<Rightarrow> int \<Rightarrow> Glyph list
   \<Rightarrow> (nat \<times> CommandData_c) list \<times> int
   \<Rightarrow> LayoutException_c + (nat \<times> CommandData_c) list \<times> int" where
  "emit_glyphs v prop runstart f asc rdy [] st = Inr st"
| "emit_glyphs v prop runstart f asc rdy (g # gs) st =
     (if cluster g \<ge> length (idx v) then Inl OutOfRange
      else
        (let a = att v (cluster g) in
         case inlay a of
           Some obj \<Rightarrow>
             (let cmds = map (\<lambda>cc. (0, cc\<lparr>cmd_y := cmd_y cc - (asc - 1), cmd_x := cmd_x cc + snd st\<rparr>)) (data obj);
                  ul = addUnderline (snd st) (lay_right obj) prop a
              in emit_glyphs v prop runstart f asc rdy gs (fst st @ cmds @ ul, snd st + lay_right obj))
         | None \<Rightarrow>
             (let gi = codepoint g;
                  gx = x_offset g;
                  gy = rdy - y_offset g - baseline_shift (att v runstart)
              in case glyph_commands (length (shadows (att v runstart))) a prop f gi gx gy
                        (x_advance g) of
                   Inl e \<Rightarrow> Inl e
                 | Inr cmds \<Rightarrow>
                     if y_advance g \<noteq> 0 then Inl NonLinearScript
                     else emit_glyphs v prop runstart f asc rdy gs (fst st @ cmds, snd st))))"

text \<open>
  The shaper (HarfBuzz) is a collaborator: \<open>shaper s off rtl lg ff\<close> are the glyphs it
  returns for the code points \<open>s\<close>, whose clusters count from \<open>off\<close>, in the direction
  \<open>rtl\<close>, for the language tag \<open>lg\<close> and the font \<open>ff\<close>. Without a font nothing is
  shaped and the buffer holds its code points with all positions zero.
\<close>

type_synonym Shaper = "char32 list \<Rightarrow> nat \<Rightarrow> bool \<Rightarrow> string \<Rightarrow> FontFace_c \<Rightarrow> Glyph list"

definition unshaped :: "char32 list \<Rightarrow> nat \<Rightarrow> Glyph list" where
  "unshaped s off =
     map (\<lambda>k. \<lparr>codepoint = s ! k, cluster = off + k, x_offset = 0, y_offset = 0,
               x_advance = 0, y_advance = 0\<rparr>) [0..<length s]"

definition run_glyphs ::
  "Shaper \<Rightarrow> LayoutDataView \<Rightarrow> nat \<Rightarrow> nat \<Rightarrow> FontFace_c option \<Rightarrow> Glyph list" where
  "run_glyphs shaper v spos runstart f =
     (let rtl = (emb v runstart mod 2 \<noteq> 0);
          lg = lang (att v runstart)
      in case f of
           None \<Rightarrow> unshaped (take (spos - runstart) (drop runstart (txt32 v))) runstart
         | Some ff \<Rightarrow>
             if txt_at v runstart \<noteq> SHY
             then shaper (take (spos - runstart) (drop runstart (txt32 v))) runstart rtl lg ff
             else if containsGlyph ff 0x2010 then shaper [0x2010] 0 rtl lg ff
             else shaper [0x2D] 0 rtl lg ff)"

text \<open>
  Ascender and descender of the run: those of the inline object at its start, else those
  of the font, which must not be null then.
\<close>

definition run_metrics ::
  "CodepointAttributes_c \<Rightarrow> FontFace_c option \<Rightarrow> LayoutException_c + int \<times> int" where
  "run_metrics a0 f =
     (case inlay a0 of
        Some obj \<Rightarrow> Inr (height obj + baseline_shift a0,
                          height obj - (height obj + baseline_shift a0))
      | None \<Rightarrow>
          (case f of
             None \<Rightarrow> Inl NullFont
           | Some ff \<Rightarrow> Inr (getAscender ff + baseline_shift a0,
                             getDescender ff + baseline_shift a0)))"

text \<open>The links of the run once the link that is still open is closed.\<close>

definition close_link ::
  "LayoutProperties_c \<Rightarrow> LinkTrack \<Rightarrow> LayoutException_c + LinkInformation_c list" where
  "close_link prop st =
     (if curLink st \<noteq> 0 then
        (case link_url prop (curLink st) of
           Inl e \<Rightarrow> Inl e
         | Inr u \<Rightarrow> Inr (track_links st @ [LinkInformation_new u [linkRect st]]))
      else Inr (track_links st))"

definition LinkTrack_new :: LinkTrack where
  "LinkTrack_new =
     \<lparr>curLink = 0, linkRect = \<lparr>rect_x = 0, rect_y = 0, rect_w = 0, rect_h = 0\<rparr>,
      linkStart = 0, track_dx = 0, track_links = []\<rparr>"

definition createRun ::
  "Shaper \<Rightarrow> LayoutDataView \<Rightarrow> nat \<Rightarrow> nat \<Rightarrow> LayoutProperties_c \<Rightarrow> FontFace_c option
   \<Rightarrow> LayoutException_c + runInfo" where
  "createRun shaper v spos runstart prop f =
     (if spos = 0 \<or> spos > length (linebreaks v) \<or> spos > vsize v + 1
         \<or> runstart \<ge> length (idx v) \<or> idx v ! runstart \<ge> length (embeddingLevels v)
      then Inl OutOfRange
      else if txt_at v runstart = SHY \<and> spos - runstart \<noteq> 1 then Inl AssertFailed
      else if txt_at v runstart = SHY \<and> f = None then Inl NullFont
      else
        (case run_metrics (att v runstart) f of
           Inl e \<Rightarrow> Inl e
         | Inr (asc, desc) \<Rightarrow>
             (case positions v prop asc desc (run_glyphs shaper v spos runstart f) LinkTrack_new of
                Inl e \<Rightarrow> Inl e
              | Inr (gs, st) \<Rightarrow>
                  (case emit_glyphs v prop runstart f asc 0
                          (if emb v runstart mod 2 \<noteq> 0 then rev gs else gs) ([], track_dx st) of
                     Inl e \<Rightarrow> Inl e
                   | Inr (cmds, rdx) \<Rightarrow>
                       (case close_link prop st of
                          Inl e \<Rightarrow> Inl e
                        | Inr ls \<Rightarrow>
                            Inr \<lparr>run = cmds, dx = rdx, dy = 0, embeddingLevel = emb v runstart,
                                 linebreak = lnb v (spos - 1), run_font = f,
                                 space = (txt_at v (spos - 1) = SPACE \<or> txt_at v (spos - 1) = NEWLINE),
                                 shy = (txt_at v runstart = SHY),
                                 ascender = asc, descender = desc, run_links = ls\<rparr>)))))"

section \<open>The line assembler\<close>

definition LF_FIRST :: int where "LF_FIRST = 1"
definition LF_LAST :: int where "LF_LAST = 2"
definition LF_SMALL_SPACE :: int where "LF_SMALL_SPACE = 4"

text \<open>\<^verbatim>\<open>std::find_if\<close> on the links of the layout: the first link with that URL.\<close>

fun find_url :: "string \<Rightarrow> LinkInformation_c list \<Rightarrow> nat \<Rightarrow> nat option" where
  "find_url u [] k = None"
| "find_url u (l2 # ls) k = (if u = url l2 then Some k else find_url u ls (k + 1))"

definition mergeLink :: "int \<Rightarrow> int \<Rightarrow> LinkInformation_c \<Rightarrow> TextLayout_c \<Rightarrow> TextLayout_c" where
  "mergeLink ddx ddy l t =
     (let ls = (case find_url (url l) (links t) 0 of
                  None \<Rightarrow> links t @ [LinkInformation_new (url l) []]
                | Some k \<Rightarrow> links t);
          i = (case find_url (url l) (links t) 0 of None \<Rightarrow> length (links t) | Some k \<Rightarrow> k);
          moved = map (\<lambda>r. r\<lparr>rect_x := rect_x r + ddx, rect_y := rect_y r + ddy\<rparr>) (areas l)
      in t\<lparr>links := ls[i := (ls ! i)\<lparr>areas := areas (ls ! i) @ moved\<rparr>]\<rparr>)"

definition mergeLinks :: "TextLayout_c \<Rightarrow> LinkInformation_c list \<Rightarrow> int \<Rightarrow> int \<Rightarrow> TextLayout_c" where
  "mergeLinks t ls ddx ddy = fold (mergeLink ddx ddy) ls t"

text \<open>The visual order of the runs of a line: the regions above each level are reversed.\<close>

function region_end :: "runInfo list \<Rightarrow> nat \<Rightarrow> nat list \<Rightarrow> nat \<Rightarrow> nat" where
  "region_end runs i runorder k =
     (if k < length runorder \<and> embeddingLevel (runs ! (runorder ! k)) > i
      then region_end runs i runorder (k + 1) else k)"
  by pat_completeness auto
termination
  by (relation "measure (\<lambda>(runs, i, runorder, k). length runorder - k)") auto

declare region_end.simps [simp del]

lemma region_end_ge: "k \<le> region_end runs i runorder k"
  by (induction runs i runorder k rule: region_end.induct)
     (subst region_end.simps, auto)

definition reverse_range :: "'a list \<Rightarrow> nat \<Rightarrow> nat \<Rightarrow> 'a list" where
  "reverse_range xs j k = take j xs @ rev (take (k - j) (drop j xs)) @ drop k xs"

lemma length_reverse_range: "j \<le> k \<Longrightarrow> length (reverse_range xs j k) = length xs"
  by (auto simp: reverse_range_def)

function reorder_level :: "runInfo list \<Rightarrow> nat \<Rightarrow> nat list \<Rightarrow> nat \<Rightarrow> nat list" where
  "reorder_level runs i runorder j =
     (if j < length runorder then
        (if embeddingLevel (runs ! (runorder ! j)) > i then
           (let k = region_end runs i runorder (j + 1)
            in reorder_level runs i (reverse_range runorder j k) (k + 1))
         else reorder_level runs i runorder (j + 1))
      else runorder)"
  by pat_completeness auto
termination
proof (relation "measure (\<lambda>(runs, i, runorder, j). length runorder - j)", goal_cases)
  case 1
  show ?case by simp
next
  case (2 runs i runorder j k)
  then show ?case
    using region_end_ge [of "j + 1" runs i runorder]
    by (simp add: length_reverse_range)
next
  case 3
  then show ?case by simp
qed

declare reorder_level.simps [simp del]

text \<open>The loop \<^verbatim>\<open>for (int i = max_level-1; i >= 0; i--)\<close>, \<open>n\<close> being \<open>i + 1\<close>.\<close>

fun reorder :: "runInfo list \<Rightarrow> nat \<Rightarrow> nat list \<Rightarrow> nat list" where
  "reorder runs 0 runorder = runorder"
| "reorder runs (Suc i) runorder = reorder runs i (reorder_level runs i runorder 0)"

definition max_level :: "runInfo list \<Rightarrow> nat list \<Rightarrow> nat" where
  "max_level runs runorder = fold (\<lambda>ri m. max m (embeddingLevel (runs ! ri))) runorder 0"

text \<open>
  Where the line starts and how much every space is widened: the \<^verbatim>\<open>switch\<close> on the
  alignment.
\<close>

definition line_start ::
  "LayoutProperties_c \<Rightarrow> int \<Rightarrow> int \<Rightarrow> int \<Rightarrow> int \<Rightarrow> int \<times> rat" where
  "line_start prop left spaceLeft lineflags numSpace =
     (case align prop of
        ALG_RIGHT \<Rightarrow> (left + spaceLeft, 0)
      | ALG_CENTER \<Rightarrow> (left + cdiv spaceLeft 2, 0)
      | ALG_JUSTIFY_LEFT \<Rightarrow>
          (let spaceadder = (if numSpace > 0 \<and> \<not> (lineflags AND LF_LAST \<noteq> 0)
                             then of_int spaceLeft / of_int numSpace else 0);
               xpos = (if lineflags AND LF_FIRST \<noteq> 0 then left + indent prop else left)
           in (xpos, spaceadder))
      | ALG_JUSTIFY_RIGHT \<Rightarrow>
          (if numSpace > 0 \<and> \<not> (lineflags AND LF_LAST \<noteq> 0)
           then (left, of_int spaceLeft / of_int numSpace)
           else (left + spaceLeft, 0))
      | ALG_LEFT \<Rightarrow> (if lineflags AND LF_FIRST \<noteq> 0 then left + indent prop else left, 0))"

text \<open>Placing one run of the line; the state is the runs, the layout, \<open>xpos2\<close> and the space count.\<close>

definition shift_command :: "rat \<Rightarrow> int \<Rightarrow> CommandData_c \<Rightarrow> CommandData_c" where
  "shift_command off ypos cc =
     cc\<lparr>cmd_x := to_int (of_int (cmd_x cc) + off), cmd_y := cmd_y cc + ypos\<rparr>"

definition widen_first_area :: "rat \<Rightarrow> LinkInformation_c list \<Rightarrow> LinkInformation_c list" where
  "widen_first_area spaceadder ls =
     (if ls \<noteq> [] \<and> areas (ls ! 0) \<noteq> [] then
        ls[0 := (ls ! 0)\<lparr>areas := (areas (ls ! 0))
                 [0 := (areas (ls ! 0) ! 0)
                    \<lparr>rect_w := to_int (of_int (rect_w (areas (ls ! 0) ! 0)) + spaceadder)\<rparr>]\<rparr>]
      else ls)"

definition place_run ::
  "nat \<Rightarrow> int \<Rightarrow> int \<Rightarrow> rat \<Rightarrow> nat \<Rightarrow> runInfo list \<times> TextLayout_c \<times> int \<times> int
   \<Rightarrow> runInfo list \<times> TextLayout_c \<times> int \<times> int" where
  "place_run spos ypos lineflags spaceadder ri st =
     (case st of (runs, l, xpos2, numSpace) \<Rightarrow>
        if \<not> shy (runs ! ri) \<or> ri + 1 = spos then
          (let off = of_int xpos2 + spaceadder * of_int numSpace;
               r = runs ! ri;
               r' = (if \<not> space r then
                       r\<lparr>run := map (\<lambda>cc. (fst cc, shift_command off ypos (snd cc))) (run r)\<rparr>
                     else
                       r\<lparr>run := map (\<lambda>cc. if command (snd cc) = CMD_RECT
                                           then (fst cc, shift_command off ypos
                                                   ((snd cc)\<lparr>cmd_w := to_int (of_int (cmd_w (snd cc)) + spaceadder)\<rparr>))
                                           else cc) (run r),
                         run_links := widen_first_area spaceadder (run_links r)\<rparr>);
               l' = mergeLinks l (run_links r') (to_int off) ypos;
               numSpace' = (if space r' then numSpace + 1 else numSpace);
               xpos2' = (if \<not> space r' then xpos2 + dx r'
                         else if lineflags AND LF_SMALL_SPACE \<noteq> 0 then xpos2 + cdiv (9 * dx r') 10
                         else xpos2 + dx r')
           in (runs[ri := r'], l', xpos2', numSpace'))
        else st)"

text \<open>The number of layers of the line, and the commands of one layer in logical order.\<close>

definition maxlayer_of :: "runInfo list \<Rightarrow> nat list \<Rightarrow> nat" where
  "maxlayer_of runs runorder =
     fold (\<lambda>ri m. fold (\<lambda>r m'. max m' (fst r + 1)) (run (runs ! ri)) m) runorder 0"

definition run_layer :: "nat \<Rightarrow> nat \<Rightarrow> runInfo list \<Rightarrow> nat \<Rightarrow> (nat \<times> CommandData_c) list" where
  "run_layer spos ly runs i =
     (if \<not> shy (runs ! i) \<or> i + 1 = spos then
        (if \<not> space (runs ! i) then filter (\<lambda>cc. fst cc = ly) (run (runs ! i))
         else filter (\<lambda>cc. fst cc = ly \<and> command (snd cc) = CMD_RECT) (run (runs ! i)))
      else [])"

text \<open>
  What the line appends to the layout, each command with the layer it was stored under:
  layer \<open>maxlayer - layer - 1\<close> for \<open>layer\<close> from 0 up, and in a layer the runs from
  \<open>runstart\<close> to \<open>spos\<close>.
\<close>

definition emitted :: "nat \<Rightarrow> nat \<Rightarrow> runInfo list \<Rightarrow> nat \<Rightarrow> (nat \<times> CommandData_c) list" where
  "emitted runstart spos runs maxlayer =
     concat (map (\<lambda>layer. concat (map (run_layer spos (maxlayer - layer - 1) runs) [runstart..<spos]))
                 [0..<maxlayer])"

definition addLine ::
  "nat \<Rightarrow> nat \<Rightarrow> runInfo list \<Rightarrow> TextLayout_c \<Rightarrow> int \<Rightarrow> int \<Rightarrow> int \<Rightarrow> int \<Rightarrow> int \<Rightarrow> int
   \<Rightarrow> LayoutProperties_c \<Rightarrow> LayoutException_c + runInfo list \<times> TextLayout_c" where
  "addLine runstart spos runs l ypos curWidth left right lineflags numSpace prop =
     (if spos < runstart then Inl LengthError
      else if runstart < spos \<and> length runs < spos then Inl OutOfRange
      else
        (let runorder0 = [runstart..<spos];
             runorder = reorder runs (max_level runs runorder0) runorder0;
             spaceLeft = right - left - curWidth;
             (xpos, spaceadder) = line_start prop left spaceLeft lineflags numSpace;
             (runs', l', xpos2, n) = fold (place_run spos ypos lineflags spaceadder) runorder (runs, l, xpos, 0);
             maxlayer = maxlayer_of runs' runorder
         in Inr (runs', fold addCommand (map snd (emitted runstart spos runs' maxlayer)) l')))"

section \<open>Splitting the text into runs\<close>

text \<open>Two font pointers are equal when they point to the same face.\<close>

definition same_font :: "FontFace_c option \<Rightarrow> FontFace_c option \<Rightarrow> bool" where
  "same_font f g = (map_option face f = map_option face g)"

text \<open>The end of the run that starts at \<open>runstart\<close>: the loop on \<open>spos\<close>.\<close>

function run_end :: "LayoutDataView \<Rightarrow> FontFace_c option \<Rightarrow> nat \<Rightarrow> nat \<Rightarrow> nat" where
  "run_end v f runstart spos =
     (if spos < vsize v
         \<and> emb v runstart = emb v spos
         \<and> lang (att v runstart) = lang (att v spos)
         \<and> same_font f (get (font (att v spos)) (txt_at v spos))
         \<and> baseline_shift (att v runstart) = baseline_shift (att v spos)
         \<and> inlay (att v spos) = None
         \<and> inlay (att v (spos - 1)) = None
         \<and> (lnb v (spos - 1) = LINEBREAK_NOBREAK \<or> lnb v (spos - 1) = LINEBREAK_INSIDEACHAR)
         \<and> txt_at v spos \<noteq> SPACE
         \<and> txt_at v (spos - 1) \<noteq> SPACE
         \<and> txt_at v spos \<noteq> NEWLINE
         \<and> txt_at v (spos - 1) \<noteq> NEWLINE
         \<and> txt_at v spos \<noteq> SHY
         \<and> \<not> hyp v spos
      then run_end v f runstart (spos + 1) else spos)"
  by pat_completeness auto
termination
  by (relation "measure (\<lambda>(v, f, runstart, spos). vsize v - spos)") auto

declare run_end.simps [simp del]

lemma run_end_ge: "spos \<le> run_end v f runstart spos"
  by (induction v f runstart spos rule: run_end.induct)
     (subst run_end.simps, auto)

text \<open>The attribute index that holds one attribute (\<^verbatim>\<open>AttributeIndex_c(a)\<close>).\<close>

definition AttributeIndex_new :: "CodepointAttributes_c \<Rightarrow> AttributeIndex_c" where
  "AttributeIndex_new a = \<lparr>hasAttribute = (\<lambda>i. True), attribute_at = (\<lambda>i. a)\<rparr>"

text \<open>The run of the soft hyphen that follows a run ending at a hyphenation point.\<close>

definition hyphen_view :: "LayoutDataView \<Rightarrow> nat \<Rightarrow> LayoutDataView" where
  "hyphen_view v runstart =
     (let viewa = LayoutDataView_new [SHY] (AttributeIndex_new (att v runstart)) [emb v runstart]
      in viewa\<lparr>linebreaks := (linebreaks viewa)[0 := LINEBREAK_ALLOWBREAK]\<rparr>)"

function createTextRuns_loop ::
  "Shaper \<Rightarrow> LayoutDataView \<Rightarrow> LayoutProperties_c \<Rightarrow> nat \<Rightarrow> runInfo list
   \<Rightarrow> LayoutException_c + runInfo list" where
  "createTextRuns_loop shaper v prop runstart runs =
     (if runstart < vsize v then
        (let f = get (font (att v runstart)) (txt_at v runstart);
             spos = run_end v f runstart (runstart + 1)
         in case createRun shaper v spos runstart prop f of
              Inl e \<Rightarrow> Inl e
            | Inr r \<Rightarrow>
                if hyp v spos then
                  (case createRun shaper (hyphen_view v runstart) 1 0 prop f of
                     Inl e \<Rightarrow> Inl e
                   | Inr r2 \<Rightarrow> createTextRuns_loop shaper v prop spos (runs @ [r, r2]))
                else createTextRuns_loop shaper v prop spos (runs @ [r]))
      else Inr runs)"
  by pat_completeness auto
termination
proof (relation "measure (\<lambda>(shaper, v, prop, runstart, runs). vsize v - runstart)", goal_cases)
  case 1
  show ?case by simp
next
  case (2 shaper v pr runstart runs f spos)
  then show ?case using run_end_ge [of "runstart + 1" v f runstart] by simp
next
  case (3 shaper v pr runstart runs f spos r)
  then show ?case using run_end_ge [of "runstart + 1" v f runstart] by simp
qed

declare createTextRuns_loop.simps [simp del]

definition createTextRuns ::
  "Shaper \<Rightarrow> LayoutDataView \<Rightarrow> LayoutProperties_c \<Rightarrow> LayoutException_c + runInfo list" where
  "createTextRuns shaper v prop = createTextRuns_loop shaper v prop 0 []"



section \<open>The greedy line breaker\<close>

function skip_spaces :: "runInfo list \<Rightarrow> nat \<Rightarrow> nat" where
  "skip_spaces runs runstart =
     (if runstart < length runs \<and> space (runs ! runstart)
      then skip_spaces runs (runstart + 1) else runstart)"
  by pat_completeness auto
termination
  by (relation "measure (\<lambda>(runs, runstart). length runs - runstart)") auto

declare skip_spaces.simps [simp del]

text \<open>
  The line as far as it is known: ascender, descender, width, the first run after it
  and the number of its spaces.
\<close>

record Line =
  l_ascend :: int
  l_descend :: int
  l_width :: int
  l_spos :: nat
  l_space :: nat

text \<open>Whether the line may be broken after run \<open>newspos\<close>.\<close>

definition break_after :: "runInfo list \<Rightarrow> nat \<Rightarrow> bool" where
  "break_after runs newspos =
     ((newspos + 1 < length runs
        \<and> space (runs ! (newspos + 1))
        \<and> (linebreak (runs ! (newspos + 1)) = LINEBREAK_ALLOWBREAK
            \<or> linebreak (runs ! (newspos + 1)) = LINEBREAK_MUSTBREAK))
      \<or> (\<not> space (runs ! newspos)
          \<and> (linebreak (runs ! newspos) = LINEBREAK_ALLOWBREAK
              \<or> linebreak (runs ! newspos) = LINEBREAK_MUSTBREAK)))"

text \<open>
  The inner loop: runs are added until the line may be broken or the runs end; \<open>l_spos\<close>
  is \<^verbatim>\<open>newspos\<close>, the last run added when the loop leaves by \<^verbatim>\<open>break\<close>.
\<close>

function probe :: "runInfo list \<Rightarrow> Line \<Rightarrow> Line" where
  "probe runs new =
     (if l_spos new < length runs then
        (let r = runs ! l_spos new;
             new' = new\<lparr>l_ascend := max (l_ascend new) (ascender r),
                        l_descend := min (l_descend new) (descender r),
                        l_width := l_width new + dx r,
                        l_space := (if space r then l_space new + 1 else l_space new)\<rparr>
         in if break_after runs (l_spos new) then new'
            else probe runs (new'\<lparr>l_spos := l_spos new + 1\<rparr>))
      else new)"
  by pat_completeness auto
termination
  by (relation "measure (\<lambda>(runs, new). length runs - l_spos new)") auto

declare probe.simps [simp del]

lemma probe_spos_ge: "l_spos new \<le> l_spos (probe runs new)"
proof (induction runs new rule: probe.induct)
  case (1 runs new)
  show ?case
  proof (cases "l_spos new < length runs \<and> \<not> break_after runs (l_spos new)")
    case True
    then show ?thesis
      using "1.IH" [OF _ refl refl] by (subst probe.simps) (simp add: Let_def)
  next
    case False
    then show ?thesis by (subst probe.simps) (auto simp: Let_def)
  qed
qed

text \<open>
  The middle loop: candidate groups are taken over while they fit; the result is the
  line and whether its end forces a break.
\<close>

definition overruns :: "Shape_c \<Rightarrow> int \<Rightarrow> Line \<Rightarrow> bool" where
  "overruns shape ypos new =
     (getLeft shape ypos (ypos + l_ascend new - l_descend new) + l_width new
        > getRight shape ypos (ypos + l_ascend new - l_descend new))"

text \<open>The line with the next candidate group: the inner loop, then \<^verbatim>\<open>newspos++\<close>.\<close>

definition candidate :: "runInfo list \<Rightarrow> Line \<Rightarrow> Line" where
  "candidate runs cur = (let new = probe runs cur in new\<lparr>l_spos := l_spos new + 1\<rparr>)"

lemma candidate_spos_gt: "l_spos cur < l_spos (candidate runs cur)"
  using probe_spos_ge [of cur runs] by (simp add: candidate_def Let_def)

function fill_line ::
  "runInfo list \<Rightarrow> Shape_c \<Rightarrow> int \<Rightarrow> nat \<Rightarrow> Line \<Rightarrow> LayoutException_c + Line \<times> bool" where
  "fill_line runs shape ypos runstart cur =
     (if l_spos cur < length runs then
        (let new = candidate runs cur
         in if l_spos cur > runstart \<and> overruns shape ypos new then Inr (cur, False)
            else
              (let new' = (if l_spos cur > runstart \<and> shy (runs ! (l_spos cur - 1))
                           then new\<lparr>l_width := l_width new - dx (runs ! (l_spos cur - 1))\<rparr>
                           else new)
               in if l_spos new' - 1 \<ge> length runs then Inl OutOfRange
                  else if linebreak (runs ! (l_spos new' - 1)) = LINEBREAK_MUSTBREAK
                          \<or> (l_spos new' < length runs \<and> space (runs ! l_spos new')
                              \<and> linebreak (runs ! l_spos new') = LINEBREAK_MUSTBREAK)
                  then Inr (new', True)
                  else fill_line runs shape ypos runstart new'))
      else Inr (cur, False))"
  by pat_completeness auto
termination
proof (relation "measure (\<lambda>(runs, shape, ypos, runstart, cur). length runs - l_spos cur)", goal_cases)
  case 1
  show ?case by simp
next
  case (2 runs shape ypos runstart cur new new')
  then show ?case using candidate_spos_gt [of cur runs] by (auto split: if_splits)
qed

declare fill_line.simps [simp del]

lemma skip_spaces_ge: "runstart \<le> skip_spaces runs runstart"
  by (induction runs runstart rule: skip_spaces.induct)
     (subst skip_spaces.simps, auto)

lemma skip_spaces_le: "runstart \<le> length runs \<Longrightarrow> skip_spaces runs runstart \<le> length runs"
  by (induction runs runstart rule: skip_spaces.induct)
     (subst skip_spaces.simps, auto)

lemma fill_line_spos_ge:
  "fill_line runs shape ypos runstart cur = Inr (cur', fb) \<Longrightarrow> l_spos cur \<le> l_spos cur'"
proof (induction runs shape ypos runstart cur rule: fill_line.induct)
  case (1 runs shape ypos runstart cur)
  from "1.prems" show ?case
    apply (subst (asm) fill_line.simps)
    apply (simp add: Let_def split: if_splits)
    using candidate_spos_gt [of cur runs] "1.IH" [OF _ refl _ refl]
       apply (auto simp: Let_def split: if_splits)
    done
qed

lemma fill_line_spos_le:
  "fill_line runs shape ypos runstart cur = Inr (cur', fb) \<Longrightarrow> l_spos cur \<le> length runs
   \<Longrightarrow> l_spos cur' \<le> length runs"
proof (induction runs shape ypos runstart cur rule: fill_line.induct)
  case (1 runs shape ypos runstart cur)
  from "1.prems" show ?case
    apply (subst (asm) fill_line.simps)
    apply (simp add: Let_def split: if_splits)
    using "1.IH" [OF _ refl _ refl]
       apply (auto simp: Let_def split: if_splits)
    done
qed

lemma fill_line_first:
  "fill_line runs shape ypos runstart cur = Inr (cur', fb) \<Longrightarrow> l_spos cur = runstart
   \<Longrightarrow> runstart < length runs \<Longrightarrow> l_spos (candidate runs cur) \<le> l_spos cur'"
  apply (subst (asm) fill_line.simps)
  apply (auto simp: Let_def split: if_splits dest: fill_line_spos_ge)
  done

lemma fold_place_run_length:
  "length (fst (fold (place_run spos ypos lineflags spaceadder) ro st)) = length (fst st)"
  by (induction ro arbitrary: st) (auto simp: place_run_def Let_def split: prod.splits)

lemma addLine_length:
  assumes "addLine runstart spos runs l ypos curWidth left right lineflags numSpace prop = Inr (runs', l')"
  shows "length runs' = length runs"
proof -
  obtain xpos spaceadder where ls:
    "line_start prop left (right - left - curWidth) lineflags numSpace = (xpos, spaceadder)"
    by (cases "line_start prop left (right - left - curWidth) lineflags numSpace")
  let ?ro = "reorder runs (max_level runs [runstart..<spos]) [runstart..<spos]"
  have "runs' = fst (fold (place_run spos ypos lineflags spaceadder) ?ro (runs, l, xpos, 0))"
    using assms ls by (auto simp: addLine_def Let_def split: if_splits prod.splits)
  then show ?thesis by (simp add: fold_place_run_length)
qed

text \<open>The state of the outer loop, and one pass through its body.\<close>

record Greedy =
  g_runs :: "runInfo list"
  g_runstart :: nat
  g_ypos :: int
  g_layout :: TextLayout_c
  g_firstline :: bool

definition breakLines_body ::
  "Shape_c \<Rightarrow> LayoutProperties_c \<Rightarrow> Greedy \<Rightarrow> LayoutException_c + Greedy" where
  "breakLines_body shape prop s =
     (let runs = g_runs s;
          ypos = g_ypos s;
          firstline = g_firstline s;
          runstart = skip_spaces runs (g_runstart s);
          cur0 = \<lparr>l_ascend = 0, l_descend = 0,
                  l_width = (if firstline \<and> align prop \<noteq> ALG_CENTER then indent prop else 0),
                  l_spos = runstart, l_space = 0\<rparr>
      in case fill_line runs shape ypos runstart cur0 of
           Inl e \<Rightarrow> Inl e
         | Inr (cur, fb) \<Rightarrow>
             (let forcebreak = (fb \<or> l_spos cur = length runs);
                  curAscend = l_ascend cur;
                  curDescend = l_descend cur
              in case addLine runstart (l_spos cur) runs (g_layout s) (ypos + curAscend) (l_width cur)
                        (getLeft shape ypos (ypos + curAscend - curDescend))
                        (getRight shape ypos (ypos + curAscend - curDescend))
                        ((if firstline then LF_FIRST else 0) + (if forcebreak then LF_LAST else 0))
                        (int (l_space cur)) prop of
                   Inl e \<Rightarrow> Inl e
                 | Inr (runs', l') \<Rightarrow>
                     Inr \<lparr>g_runs = runs', g_runstart = l_spos cur,
                          g_ypos = ypos + curAscend - curDescend,
                          g_layout = (if firstline then l'\<lparr>firstBaseline := ypos + curAscend\<rparr> else l'),
                          g_firstline = False\<rparr>))"

lemma breakLines_body_progress:
  assumes "breakLines_body shape prop s = Inr s'" and "g_runstart s < length (g_runs s)"
  shows "g_runstart s < g_runstart s' \<and> g_runstart s' \<le> length (g_runs s')
         \<and> length (g_runs s') = length (g_runs s)
         \<and> (skip_spaces (g_runs s) (g_runstart s) < g_runstart s'
              \<or> (g_runstart s < skip_spaces (g_runs s) (g_runstart s)
                  \<and> g_runstart s' = length (g_runs s)))"
proof -
  let ?runs = "g_runs s"
  let ?rs = "skip_spaces ?runs (g_runstart s)"
  let ?cur0 = "\<lparr>l_ascend = 0, l_descend = 0,
                 l_width = (if g_firstline s \<and> align prop \<noteq> ALG_CENTER then indent prop else 0),
                 l_spos = ?rs, l_space = 0\<rparr>"
  from assms(1) obtain cur fb where fl: "fill_line ?runs shape (g_ypos s) ?rs ?cur0 = Inr (cur, fb)"
    by (auto simp: breakLines_body_def Let_def split: sum.splits)
  from assms(1) fl obtain runs' l' where
    al: "addLine ?rs (l_spos cur) ?runs (g_layout s) (g_ypos s + l_ascend cur) (l_width cur)
           (getLeft shape (g_ypos s) (g_ypos s + l_ascend cur - l_descend cur))
           (getRight shape (g_ypos s) (g_ypos s + l_ascend cur - l_descend cur))
           ((if g_firstline s then LF_FIRST else 0)
              + (if fb \<or> l_spos cur = length ?runs then LF_LAST else 0))
           (int (l_space cur)) prop = Inr (runs', l')"
    and s': "g_runs s' = runs'" "g_runstart s' = l_spos cur"
    by (auto simp: breakLines_body_def Let_def split: sum.splits)
  have len: "length runs' = length ?runs" using al by (rule addLine_length)
  have ge: "g_runstart s \<le> ?rs" by (rule skip_spaces_ge)
  have gt: "g_runstart s < l_spos cur"
  proof (cases "?rs < length ?runs")
    case True
    have "l_spos (candidate ?runs ?cur0) \<le> l_spos cur"
      using fill_line_first [OF fl _ True] by simp
    moreover have "?rs < l_spos (candidate ?runs ?cur0)"
      using candidate_spos_gt [of ?cur0 ?runs] by simp
    ultimately show ?thesis using ge by linarith
  next
    case False
    have "?rs \<le> l_spos cur" using fill_line_spos_ge [OF fl] by simp
    then show ?thesis using False assms(2) by linarith
  qed
  have le: "l_spos cur \<le> length ?runs"
    using fill_line_spos_le [OF fl] skip_spaces_le [of "g_runstart s" ?runs] assms(2) by simp
  have either: "?rs < l_spos cur \<or> (g_runstart s < ?rs \<and> l_spos cur = length ?runs)"
  proof (cases "?rs < length ?runs")
    case True
    have "l_spos (candidate ?runs ?cur0) \<le> l_spos cur"
      using fill_line_first [OF fl _ True] by simp
    moreover have "?rs < l_spos (candidate ?runs ?cur0)"
      using candidate_spos_gt [of ?cur0 ?runs] by simp
    ultimately show ?thesis by linarith
  next
    case False
    have "?rs \<le> l_spos cur" using fill_line_spos_ge [OF fl] by simp
    then show ?thesis using False assms(2) le by linarith
  qed
  show ?thesis using gt le len s' either by simp
qed

function breakLines_loop ::
  "Shape_c \<Rightarrow> LayoutProperties_c \<Rightarrow> Greedy \<Rightarrow> LayoutException_c + Greedy" where
  "breakLines_loop shape prop s =
     (if g_runstart s < length (g_runs s) then
        (case breakLines_body shape prop s of
           Inl e \<Rightarrow> Inl e
         | Inr s' \<Rightarrow> breakLines_loop shape prop s')
      else Inr s)"
  by pat_completeness auto
termination
proof (relation "measure (\<lambda>(shape, pr, s). length (g_runs s) - g_runstart s)", goal_cases)
  case 1
  show ?case by simp
next
  case (2 shape pr s s')
  then have "g_runstart s < g_runstart s' \<and> g_runstart s' \<le> length (g_runs s')
             \<and> length (g_runs s') = length (g_runs s)"
    using breakLines_body_progress [of shape pr s s'] by simp
  then show ?case by (simp add: diff_less_mono2)
qed

declare breakLines_loop.simps [simp del]

definition breakLines ::
  "runInfo list \<Rightarrow> Shape_c \<Rightarrow> LayoutProperties_c \<Rightarrow> int \<Rightarrow> LayoutException_c + TextLayout_c" where
  "breakLines runs shape prop ystart =
     (case breakLines_loop shape prop
             \<lparr>g_runs = runs, g_runstart = 0, g_ypos = ystart, g_layout = TextLayout_new,
              g_firstline = True\<rparr> of
        Inl e \<Rightarrow> Inl e
      | Inr s \<Rightarrow>
          Inr ((g_layout s)\<lparr>height := g_ypos s,
                             lay_left := getLeft2 shape ystart (g_ypos s),
                             lay_right := getRight2 shape ystart (g_ypos s)\<rparr>))"

text \<open>
  The outer loop with a bound on its passes: \<open>None\<close> when the bound is used up before
  the loop is left.
\<close>

fun breakLines_bounded ::
  "nat \<Rightarrow> Shape_c \<Rightarrow> LayoutProperties_c \<Rightarrow> Greedy \<Rightarrow> (LayoutException_c + Greedy) option" where
  "breakLines_bounded n shape prop s =
     (if g_runstart s < length (g_runs s) then
        (case n of
           0 \<Rightarrow> None
         | Suc m \<Rightarrow>
             (case breakLines_body shape prop s of
                Inl e \<Rightarrow> Some (Inl e)
              | Inr s' \<Rightarrow> breakLines_bounded m shape prop s'))
      else Some (Inr s))"

declare breakLines_bounded.simps [simp del]

section \<open>The optimizing line breaker\<close>

text \<open>
  A \<^verbatim>\<open>float\<close> of the cost computation: a number (the exact rational, rounding left
  out), an infinity or not-a-number, with the arithmetic and the comparisons of IEEE 754
  on them: a comparison with not-a-number is false.
\<close>

datatype cfloat = Fin rat | PInf | NInf | NaN

fun fadd :: "cfloat \<Rightarrow> cfloat \<Rightarrow> cfloat" where
  "fadd NaN b = NaN"
| "fadd a NaN = NaN"
| "fadd (Fin a) (Fin b) = Fin (a + b)"
| "fadd PInf NInf = NaN"
| "fadd NInf PInf = NaN"
| "fadd PInf b = PInf"
| "fadd a PInf = PInf"
| "fadd NInf b = NInf"
| "fadd a NInf = NInf"

definition fsign :: "bool \<Rightarrow> cfloat" where
  "fsign positive = (if positive then PInf else NInf)"

fun fmul :: "cfloat \<Rightarrow> cfloat \<Rightarrow> cfloat" where
  "fmul NaN b = NaN"
| "fmul a NaN = NaN"
| "fmul (Fin a) (Fin b) = Fin (a * b)"
| "fmul (Fin a) PInf = (if a = 0 then NaN else fsign (0 < a))"
| "fmul (Fin a) NInf = (if a = 0 then NaN else fsign (a < 0))"
| "fmul PInf (Fin b) = (if b = 0 then NaN else fsign (0 < b))"
| "fmul NInf (Fin b) = (if b = 0 then NaN else fsign (b < 0))"
| "fmul PInf PInf = PInf"
| "fmul PInf NInf = NInf"
| "fmul NInf PInf = NInf"
| "fmul NInf NInf = PInf"

text \<open>The quotient of two numbers; the divisor is a converted integer, so its zero is positive.\<close>

definition fdiv :: "rat \<Rightarrow> rat \<Rightarrow> cfloat" where
  "fdiv a b = (if b = 0 then (if a = 0 then NaN else fsign (0 < a)) else Fin (a / b))"

fun fge :: "cfloat \<Rightarrow> rat \<Rightarrow> bool" where
  "fge (Fin a) b = (b \<le> a)"
| "fge PInf b = True"
| "fge NInf b = False"
| "fge NaN b = False"

fun fless :: "cfloat \<Rightarrow> cfloat \<Rightarrow> bool" where
  "fless NaN b = False"
| "fless a NaN = False"
| "fless (Fin a) (Fin b) = (a < b)"
| "fless (Fin a) PInf = True"
| "fless (Fin a) NInf = False"
| "fless PInf b = False"
| "fless NInf NInf = False"
| "fless NInf b = True"

definition INT_MAX :: rat where
  "INT_MAX = 2147483647"

record lineinfo =
  li_from :: nat
  li_demerits :: cfloat
  li_ascend :: int
  li_descend :: int
  li_width :: int
  li_spaces :: int
  li_ypos :: int
  li_forcebreak :: bool
  li_linetype :: int
  li_hypen :: bool
  li_start :: bool

text \<open>An element of \<^verbatim>\<open>std::vector<lineinfo> li (n)\<close>: all members zero.\<close>

definition lineinfo_zero :: lineinfo where
  "lineinfo_zero =
     \<lparr>li_from = 0, li_demerits = Fin 0, li_ascend = 0, li_descend = 0, li_width = 0,
      li_spaces = 0, li_ypos = 0, li_forcebreak = False, li_linetype = 0, li_hypen = False,
      li_start = False\<rparr>"

text \<open>
  \<^verbatim>\<open>while (runs[s1].space) s1++\<close> and \<^verbatim>\<open>while (runs[s2-1].space) s2--\<close>: \<open>None\<close>
  when the loop reads past an end of the runs.
\<close>

function skip_fwd :: "runInfo list \<Rightarrow> nat \<Rightarrow> nat option" where
  "skip_fwd runs s1 =
     (if s1 \<ge> length runs then None
      else if space (runs ! s1) then skip_fwd runs (s1 + 1) else Some s1)"
  by pat_completeness auto
termination
  by (relation "measure (\<lambda>(runs, s1). length runs - s1)") auto

declare skip_fwd.simps [simp del]

fun skip_bwd :: "runInfo list \<Rightarrow> nat \<Rightarrow> nat option" where
  "skip_bwd runs 0 = None"
| "skip_bwd runs (Suc k) =
     (if k \<ge> length runs then None
      else if space (runs ! k) then skip_bwd runs k else Some (Suc k))"

text \<open>
  The measures of the candidate line from \<open>s1\<close> to \<open>s2\<close>: a space counts nine tenths
  of its advance. (\<^verbatim>\<open>optimalStretch\<close> is summed up in the source and never read.)
\<close>

record Measure =
  Ascend :: int
  Descend :: int
  Width :: int
  Space :: nat
  spaceWidth :: int

definition measure_run :: "runInfo list \<Rightarrow> nat \<Rightarrow> nat \<Rightarrow> Measure \<Rightarrow> Measure" where
  "measure_run runs s2 j m =
     (if \<not> shy (runs ! j) \<or> j + 1 = s2 then
        (let m' = m\<lparr>Ascend := max (Ascend m) (ascender (runs ! j)),
                    Descend := min (Descend m) (descender (runs ! j))\<rparr>
         in if space (runs ! j) then
              m'\<lparr>Space := Space m' + 1,
                 Width := Width m' + cdiv (dx (runs ! j) * 9) 10,
                 spaceWidth := spaceWidth m' + dx (runs ! j)\<rparr>
            else m'\<lparr>Width := Width m' + dx (runs ! j)\<rparr>)
      else m)"

definition measure_line :: "runInfo list \<Rightarrow> nat \<Rightarrow> nat \<Rightarrow> int \<Rightarrow> Measure" where
  "measure_line runs s1 s2 width0 =
     fold (measure_run runs s2) [s1..<s2]
       \<lparr>Ascend = 0, Descend = 0, Width = width0, Space = 0, spaceWidth = 0\<rparr>"

definition badness_of :: "int \<Rightarrow> int \<Rightarrow> cfloat" where
  "badness_of fillin optimalFillin =
     (let fillinDifference = \<bar>of_int fillin - of_int optimalFillin\<bar>;
          q = fdiv fillinDifference (of_int optimalFillin)
      in fmul (Fin 100) (fmul q (fmul q q)))"

definition linetype_of :: "cfloat \<Rightarrow> int \<Rightarrow> int \<Rightarrow> int" where
  "linetype_of badness fillin optimalFillin =
     (if fge badness 100 then 3
      else if fge badness 13 then (if fillin > optimalFillin then 2 else 0)
      else 1)"

text \<open>
  The cost of the candidate line that ends before run \<open>i\<close> and follows the break
  \<open>prev\<close>: its demerits before those of \<open>prev\<close> are added, whether the break is
  forced, and the type of the line.
\<close>

definition line_cost ::
  "Shape_c \<Rightarrow> runInfo list \<Rightarrow> nat \<Rightarrow> lineinfo \<Rightarrow> Measure \<Rightarrow> nat \<Rightarrow> cfloat \<times> bool \<times> int" where
  "line_cost shape runs i prev m s2 =
     (let top = li_ypos prev;
          bottom = li_ypos prev + Ascend m - Descend m;
          fillin = getRight shape top bottom - getLeft shape top bottom - Width m;
          optimalFillin = spaceWidth m - Width m;
          badness = badness_of fillin optimalFillin;
          linetype = linetype_of badness fillin optimalFillin;
          d0 = fmul (fadd (Fin 10) badness) (fadd (Fin 10) badness);
          d1 = (if shy (runs ! (s2 - 1)) \<and> li_hypen prev then fadd d0 (Fin 10000) else d0);
          d2 = (if \<bar>linetype - li_linetype prev\<bar> > 1 then fadd d1 (Fin 10000) else d1);
          d3 = (if linetype \<noteq> li_linetype prev then fadd d2 (Fin 5000) else d2)
      in if linebreak (runs ! (i - 1)) = LINEBREAK_MUSTBREAK \<or> i = length runs then
           (if Width m > cdiv (getRight shape top bottom - getLeft shape top bottom) 3
            then Fin 0 else Fin 100000, True, linetype)
         else (d3, False, linetype))"

text \<open>The loop on \<open>start\<close>, from \<open>i\<close> down to 1; \<open>Suc k\<close> is \<open>start\<close>.\<close>

fun starts_loop ::
  "Shape_c \<Rightarrow> LayoutProperties_c \<Rightarrow> runInfo list \<Rightarrow> nat \<Rightarrow> nat \<Rightarrow> lineinfo list
   \<Rightarrow> LayoutException_c + lineinfo list" where
  "starts_loop shape prop runs i 0 li = Inr li"
| "starts_loop shape prop runs i (Suc k) li =
     (if li_demerits (li ! k) = Fin INT_MAX then starts_loop shape prop runs i k li
      else
        (case skip_fwd runs k of
           None \<Rightarrow> Inl OutOfRange
         | Some s1 \<Rightarrow>
             (case skip_bwd runs i of
                None \<Rightarrow> Inl OutOfRange
              | Some s2 \<Rightarrow>
                  (let prev = li ! k;
                       m = measure_line runs s1 s2
                             (if Suc k = 1 \<and> align prop \<noteq> ALG_CENTER then indent prop else 0);
                       top = li_ypos prev;
                       bottom = li_ypos prev + Ascend m - Descend m
                   in if getLeft shape top bottom + Width m > getRight shape top bottom then Inr li
                      else
                        (let (demerits0, force, linetype) = line_cost shape runs i prev m s2;
                             demerits = fadd demerits0 (li_demerits prev);
                             li' = (if fless demerits (li_demerits (li ! i)) then
                                      li[i := \<lparr>li_from = k, li_demerits = demerits,
                                               li_ascend = Ascend m, li_descend = Descend m,
                                               li_width = Width m, li_spaces = int (Space m),
                                               li_ypos = li_ypos prev + Ascend m - Descend m,
                                               li_forcebreak = force, li_linetype = linetype,
                                               li_hypen = shy (runs ! (s2 - 1)), li_start = False\<rparr>]
                                    else li)
                         in starts_loop shape prop runs i k li')))))"

text \<open>
  Following the \<^verbatim>\<open>from\<close> pointers back to the start of the paragraph. The loop of the
  source has no bound of its own, so not returning is the value \<open>None\<close>.
\<close>

partial_function (option) backtrace ::
  "lineinfo list \<Rightarrow> nat \<Rightarrow> nat list \<Rightarrow> (LayoutException_c + nat list) option" where
  "backtrace li ii breaks =
     (if ii \<ge> length li then Some (Inl OutOfRange)
      else if \<not> li_start (li ! ii) then backtrace li (li_from (li ! ii)) (breaks @ [ii])
      else Some (Inr (breaks @ [ii])))"

declare backtrace.simps [code]

text \<open>The lines between the breaks, the first line first; \<open>Suc k\<close> is \<open>ii\<close>.\<close>

fun emit_lines ::
  "Shape_c \<Rightarrow> LayoutProperties_c \<Rightarrow> nat list \<Rightarrow> nat \<Rightarrow> runInfo list \<times> lineinfo list \<times> TextLayout_c
   \<Rightarrow> LayoutException_c + runInfo list \<times> lineinfo list \<times> TextLayout_c" where
  "emit_lines shape prop breaks 0 st = Inr st"
| "emit_lines shape prop breaks (Suc k) st =
     (case st of (runs, li, l) \<Rightarrow>
        if Suc k \<ge> length breaks \<or> breaks ! k \<ge> length li \<or> breaks ! Suc k \<ge> length li
        then Inl OutOfRange
        else
          (let bb = li ! (breaks ! k);
               cc = li ! (breaks ! Suc k)
           in case skip_fwd runs (breaks ! Suc k) of
                None \<Rightarrow> Inl OutOfRange
              | Some s1 \<Rightarrow>
                  (case skip_bwd runs (breaks ! k) of
                     None \<Rightarrow> Inl OutOfRange
                   | Some s2 \<Rightarrow>
                       (case addLine s1 s2 runs l (li_ypos cc + li_ascend bb) (li_width bb)
                               (getLeft shape (li_ypos cc) (li_ypos cc + li_ascend bb - li_descend bb))
                               (getRight shape (li_ypos cc) (li_ypos cc + li_ascend bb - li_descend bb))
                               ((if Suc k = length breaks - 1 then LF_FIRST else 0)
                                  + (if Suc k = 1 then LF_LAST else 0) + LF_SMALL_SPACE)
                               (li_spaces bb) prop of
                          Inl e \<Rightarrow> Inl e
                        | Inr (runs', l') \<Rightarrow>
                            emit_lines shape prop breaks k
                              (runs',
                               li[breaks ! Suc k := cc\<lparr>li_ypos := li_ypos cc + li_ascend bb - li_descend bb\<rparr>],
                               (if Suc k = length breaks - 1
                                then l'\<lparr>firstBaseline := li_ypos cc + li_ascend bb\<rparr> else l'))))))"

lemma emit_lines_length:
  "emit_lines shape prop breaks k st = Inr st' \<Longrightarrow> length (fst st') = length (fst st)"
proof (induction k arbitrary: st)
  case 0
  then show ?case by simp
next
  case (Suc k)
  obtain runs li l where st: "st = (runs, li, l)" by (cases st)
  from Suc.prems st obtain s1 s2 runs' l' li' l'' where
    al: "addLine s1 s2 runs l (li_ypos (li ! (breaks ! Suc k)) + li_ascend (li ! (breaks ! k)))
           (li_width (li ! (breaks ! k)))
           (getLeft shape (li_ypos (li ! (breaks ! Suc k)))
              (li_ypos (li ! (breaks ! Suc k)) + li_ascend (li ! (breaks ! k)) - li_descend (li ! (breaks ! k))))
           (getRight shape (li_ypos (li ! (breaks ! Suc k)))
              (li_ypos (li ! (breaks ! Suc k)) + li_ascend (li ! (breaks ! k)) - li_descend (li ! (breaks ! k))))
           ((if Suc k = length breaks - 1 then LF_FIRST else 0)
              + (if Suc k = 1 then LF_LAST else 0) + LF_SMALL_SPACE)
           (li_spaces (li ! (breaks ! k))) prop = Inr (runs', l')"
    and rest: "emit_lines shape prop breaks k (runs', li', l'') = Inr st'"
    by (auto simp: Let_def split: if_splits option.splits sum.splits)
  have "length (fst st') = length runs'" using Suc.IH [OF rest] by simp
  then show ?case using addLine_length [OF al] st by simp
qed

text \<open>
  The loop on \<open>i\<close>. At a forced break or at the end of the runs the lines are
  written, the runs up to \<open>i\<close> are erased and the loop starts again with \<open>i = 1\<close>.
\<close>

function opt_loop ::
  "Shape_c \<Rightarrow> LayoutProperties_c \<Rightarrow> runInfo list \<Rightarrow> lineinfo list \<Rightarrow> TextLayout_c \<Rightarrow> nat
   \<Rightarrow> (LayoutException_c + TextLayout_c \<times> lineinfo list) option" where
  "opt_loop shape prop runs li l i =
     (if i < length runs + 1 then
        (if i = 0 \<or> length li \<le> i then Some (Inl OutOfRange)
         else
           (let li1 = li[i := (li ! i)\<lparr>li_demerits := Fin INT_MAX\<rparr>];
                brk = linebreak (runs ! (i - 1))
            in case (if brk = LINEBREAK_ALLOWBREAK \<or> brk = LINEBREAK_MUSTBREAK
                     then starts_loop shape prop runs i i li1 else Inr li1) of
                 Inl e \<Rightarrow> Some (Inl e)
               | Inr li2 \<Rightarrow>
                   if brk = LINEBREAK_MUSTBREAK \<or> i = length runs then
                     (case backtrace li2 i [] of
                        None \<Rightarrow> None
                      | Some (Inl e) \<Rightarrow> Some (Inl e)
                      | Some (Inr breaks) \<Rightarrow>
                          (case emit_lines shape prop breaks (length breaks - 1) (runs, li2, l) of
                             Inl e \<Rightarrow> Some (Inl e)
                           | Inr (runs', li3, l') \<Rightarrow>
                               opt_loop shape prop (drop i runs')
                                 (li3[0 := (li3 ! 0)\<lparr>li_ypos := li_ypos (li3 ! i)\<rparr>]) l' 1))
                   else opt_loop shape prop runs li2 l (i + 1)))
      else Some (Inr (l, li)))"
  by pat_completeness auto
termination
proof (relation "measures [\<lambda>(shape, pr, runs, li, l, i). length runs,
                           \<lambda>(shape, pr, runs, li, l, i). length runs + 1 - i]", goal_cases)
  case 1
  show ?case by simp
next
  case (2 shape pr runs li l i li1 brk li2 r breaks st runs' rest li3 l')
  have "length (fst st) = length (fst (runs, li2, l))"
    using 2 by (intro emit_lines_length [of shape pr breaks "length breaks - 1"]) simp
  moreover have "fst st = runs'" using 2 by (metis fst_conv)
  ultimately show ?case using 2 by auto
next
  case 3
  then show ?case by auto
qed

declare opt_loop.simps [simp del]

definition breakLinesOptimize ::
  "runInfo list \<Rightarrow> Shape_c \<Rightarrow> LayoutProperties_c \<Rightarrow> int \<Rightarrow> (LayoutException_c + TextLayout_c) option" where
  "breakLinesOptimize runs shape prop ystart =
     (let li = (replicate (length runs + 1) lineinfo_zero)
                 [0 := lineinfo_zero\<lparr>li_from := 0, li_demerits := Fin 0, li_ypos := ystart,
                                      li_start := True\<rparr>]
      in case opt_loop shape prop runs li TextLayout_new 1 of
           None \<Rightarrow> None
         | Some (Inl e) \<Rightarrow> Some (Inl e)
         | Some (Inr (l, li')) \<Rightarrow>
             Some (Inr (l\<lparr>height := li_ypos (li' ! 0),
                          lay_left := getLeft2 shape ystart (li_ypos (li' ! 0)),
                          lay_right := getRight2 shape ystart (li_ypos (li' ! 0))\<rparr>)))"

section \<open>The layout of a paragraph\<close>

text \<open>
  The bidirectional algorithm (FriBidi) is a collaborator: \<open>fribidi s ltr\<close> is the
  status it returns (0 when it fails) and the levels it writes into the vector of the
  length of the text.
\<close>

type_synonym Bidi = "char32 list \<Rightarrow> bool \<Rightarrow> nat \<times> nat list"

definition getBidiEmbeddingLevels ::
  "Bidi \<Rightarrow> char32 list \<Rightarrow> LayoutProperties_c \<Rightarrow> LayoutException_c + nat list" where
  "getBidiEmbeddingLevels fribidi t prop =
     (let res = fribidi t (ltr prop);
          embedding_levels = overwrite (replicate (length t) 0) 0 (take (length t) (snd res))
      in if fst res = 0 then Inl BidiFailure else Inr embedding_levels)"

text \<open>
  The view once the levels, the line breaks and, when asked for, the hyphenation points
  are known: the first three steps of \<^verbatim>\<open>layoutParagraph\<close>.
\<close>

definition analysed_view ::
  "Bidi \<Rightarrow> Analysers \<Rightarrow> char32 list \<Rightarrow> AttributeIndex_c \<Rightarrow> LayoutProperties_c
   \<Rightarrow> LayoutException_c + LayoutDataView" where
  "analysed_view fribidi an t a prop =
     (case getBidiEmbeddingLevels fribidi t prop of
        Inl e \<Rightarrow> Inl e
      | Inr embedding_levels \<Rightarrow>
          (let view = getLinebreaks an (LayoutDataView_new t a embedding_levels)
           in if hyphenate prop then getHyphens an view else Inr view))"

text \<open>The result is \<open>None\<close> when the call does not return.\<close>

definition layoutParagraph ::
  "Bidi \<Rightarrow> Analysers \<Rightarrow> Shaper \<Rightarrow> char32 list \<Rightarrow> AttributeIndex_c \<Rightarrow> Shape_c
   \<Rightarrow> LayoutProperties_c \<Rightarrow> int \<Rightarrow> (LayoutException_c + TextLayout_c) option" where
  "layoutParagraph fribidi an shaper t a shape prop ystart =
     (case analysed_view fribidi an t a prop of
        Inl e \<Rightarrow> Some (Inl e)
      | Inr view \<Rightarrow>
          (case createTextRuns shaper view prop of
             Inl e \<Rightarrow> Some (Inl e)
           | Inr runs \<Rightarrow>
               if optimizeLinebreaks prop then breakLinesOptimize runs shape prop ystart
               else Some (breakLines runs shape prop ystart)))"

section \<open>Example inputs\<close>

text \<open>Small concrete inputs on which the statements below are evaluated.\<close>

definition ex_word :: "int \<Rightarrow> nat \<Rightarrow> runInfo" where
  "ex_word d lb =
     \<lparr>run = [], dx = d, dy = 0, embeddingLevel = 0, linebreak = lb, run_font = None,
      space = False, shy = False, ascender = 10, descender = - 2, run_links = []\<rparr>"

definition ex_shape :: "int \<Rightarrow> Shape_c" where
  "ex_shape wd = \<lparr>getLeft = (\<lambda>top bottom. 0), getRight = (\<lambda>top bottom. wd),
                  getLeft2 = (\<lambda>top bottom. 0), getRight2 = (\<lambda>top bottom. wd)\<rparr>"

definition ex_no_font :: Font_c where
  "ex_no_font = \<lparr>get = (\<lambda>cp. None), getUnderlinePosition = - 64, getUnderlineThickness = 64,
              valid = False\<rparr>"

definition ex_prop :: "align_t \<Rightarrow> LayoutProperties_c" where
  "ex_prop al = \<lparr>align = al, indent = 30, ltr = True, hyphenate = False,
                 optimizeLinebreaks = False, underlineFont = ex_no_font, plinks = []\<rparr>"

definition ex_runs :: "runInfo list" where
  "ex_runs = [ex_word 100 LINEBREAK_ALLOWBREAK, ex_word 100 LINEBREAK_MUSTBREAK]"

definition ex_line :: "int \<Rightarrow> int \<Rightarrow> int \<Rightarrow> nat \<Rightarrow> Line" where
  "ex_line asc desc wd sp =
     \<lparr>l_ascend = asc, l_descend = desc, l_width = wd, l_spos = sp, l_space = 0\<rparr>"

definition ex_greedy :: "runInfo list \<Rightarrow> nat \<Rightarrow> int \<Rightarrow> TextLayout_c \<Rightarrow> bool \<Rightarrow> Greedy" where
  "ex_greedy runs runstart ypos l firstline =
     \<lparr>g_runs = runs, g_runstart = runstart, g_ypos = ypos, g_layout = l, g_firstline = firstline\<rparr>"



definition ex_face :: FontFace_c where
  "ex_face = \<lparr>face = 1, getAscender = 10, getDescender = - 2, glyphs = [0x2D]\<rparr>"

definition ex_fontset :: Font_c where
  "ex_fontset = \<lparr>get = (\<lambda>cp. Some ex_face), getUnderlinePosition = - 64,
                 getUnderlineThickness = 64, valid = True\<rparr>"

definition ex_attr :: "string \<Rightarrow> CodepointAttributes_c" where
  "ex_attr lg = \<lparr>att_c = Color_c 0 0 0 255, font = ex_fontset, lang = lg, flags = 0, shadows = [],
                 baseline_shift = 0, inlay = None, link = 0\<rparr>"

text \<open>Word breaks around spaces and at the end of the string.\<close>

fun ex_wordbreaks :: "char32 list \<Rightarrow> nat list" where
  "ex_wordbreaks [] = []"
| "ex_wordbreaks [k] = [0]"
| "ex_wordbreaks (k # n # r) =
     (if k = 0x20 \<or> n = 0x20 \<or> n = 0 then 0 else 1) # ex_wordbreaks (n # r)"

text \<open>A dictionary that knows the word table (ta-ble).\<close>

definition ex_dict :: HyphenDict where
  "ex_dict word =
     (if word = [0x74, 0x61, 0x62, 0x6C, 0x65]
      then [\<lparr>hyphens_count = 0, rep = []\<rparr>, \<lparr>hyphens_count = 1, rep = []\<rparr>]
           @ replicate 8 \<lparr>hyphens_count = 0, rep = []\<rparr>
      else replicate (length word + 5) \<lparr>hyphens_count = 0, rep = []\<rparr>)"

definition ex_an :: Analysers where
  "ex_an =
     \<lparr>set_linebreaks_utf32 =
        (\<lambda>s lg. replicate (length s - 1) LINEBREAK_NOBREAK @ [LINEBREAK_MUSTBREAK]),
      set_wordbreaks_utf32 = (\<lambda>s lg. ex_wordbreaks s),
      getHyphenDict = (\<lambda>lg. if lg = ''en'' then Some ex_dict else None)\<rparr>"

definition ex_bidi :: Bidi where
  "ex_bidi s ltr_dir = (1, replicate (length s) 0)"

text \<open>A shaper that gives every code point one glyph with the vertical advance \<open>ya\<close>.\<close>

definition ex_shaper :: "int \<Rightarrow> Shaper" where
  "ex_shaper ya s off rtl lg ff =
     map (\<lambda>k. \<lparr>codepoint = s ! k, cluster = off + k, x_offset = 0, y_offset = 0,
               x_advance = 64, y_advance = ya\<rparr>) [0..<length s]"






text \<open>The text ab, a in English and b in German.\<close>

definition ex_view_en_de :: LayoutDataView where
  "ex_view_en_de =
     LayoutDataView_new [0x61, 0x62]
       \<lparr>hasAttribute = (\<lambda>i. True),
        attribute_at = (\<lambda>i. if i = 0 then ex_attr ''en'' else ex_attr ''de'')\<rparr> [0, 0]"

text \<open>
  The text table, a space, ta, U+00AD, bl: English but for the space, whose attribute
  has no language.
\<close>

definition ex_view_shy :: LayoutDataView where
  "ex_view_shy =
     LayoutDataView_new [0x74, 0x61, 0x62, 0x6C, 0x65, 0x20, 0x74, 0x61, 0xAD, 0x62, 0x6C]
       \<lparr>hasAttribute = (\<lambda>i. True),
        attribute_at = (\<lambda>i. if i = 5 then ex_attr [] else ex_attr ''en'')\<rparr>
       [0, 0, 0, 0, 0, 0, 0, 0, 0, 0, 0]"


section \<open>Evaluating the examples\<close>

lemma replicate_num: "replicate (numeral k) y = y # replicate (pred_numeral k) y"
  by (simp add: numeral_eq_Suc)

lemmas hyph_eval =
  getHyphens_lookups_def getHyphens_def getHyphens_loop.simps section_end.simps hyphenate_words.simps
  mark_word.simps find_first_of.simps not_below_def sethyp_def resize_def overwrite_def c_str_slice_def
  vsize_def hasatt_def att_def txt_at_def ex_an_def ex_dict_def ex_attr_def
  WORDBREAK_BREAK_def SHY_def Let_def replicate_num


lemma ex_view_en_de_eq:
  "ex_view_en_de =
     \<lparr>txt32 = [0x61, 0x62], idx = [0, 1],
      attr = \<lparr>hasAttribute = (\<lambda>i. True),
              attribute_at = (\<lambda>i. if i = 0 then ex_attr ''en'' else ex_attr ''de'')\<rparr>,
      embeddingLevels = [0, 0], linebreaks = [0, 0], hyphens = []\<rparr>"
  by (simp add: ex_view_en_de_def LayoutDataView_new_def view_copy.simps isBidiCharacter_def)

lemma ex_view_shy_eq:
  "ex_view_shy =
     \<lparr>txt32 = [0x74, 0x61, 0x62, 0x6C, 0x65, 0x20, 0x74, 0x61, 0xAD, 0x62, 0x6C],
      idx = [0, 1, 2, 3, 4, 5, 6, 7, 8, 9, 10],
      attr = \<lparr>hasAttribute = (\<lambda>i. True),
              attribute_at = (\<lambda>i. if i = 5 then ex_attr [] else ex_attr ''en'')\<rparr>,
      embeddingLevels = [0, 0, 0, 0, 0, 0, 0, 0, 0, 0, 0],
      linebreaks = [0, 0, 0, 0, 0, 0, 0, 0, 0, 0, 0], hyphens = []\<rparr>"
  by (simp add: ex_view_shy_def LayoutDataView_new_def view_copy.simps isBidiCharacter_def
        replicate_num)





section \<open>The index map of the view\<close>

lemma view_copy_idx:
  "sorted_wrt (<) ix \<Longrightarrow> (\<forall>k \<in> set ix. k < i) \<Longrightarrow>
   sorted_wrt (<) (snd (view_copy t i tx ix)) \<and>
   set (snd (view_copy t i tx ix)) =
     set ix \<union> {k. i \<le> k \<and> k < length t \<and> \<not> isBidiCharacter (t ! k)}"
proof (induction t i tx ix rule: view_copy.induct)
  case (1 t i tx ix)
  show ?case
  proof (cases "i < length t")
    case False
    then show ?thesis using "1.prems" by (subst (1 2) view_copy.simps) auto
  next
    case inb: True
    show ?thesis
    proof (cases "isBidiCharacter (t ! i)")
      case True
      have less: "\<forall>k \<in> set ix. k < i + 1" using "1.prems"(2) by auto
      have st: "{k. i \<le> k \<and> k < length t \<and> \<not> isBidiCharacter (t ! k)} =
                {k. i + 1 \<le> k \<and> k < length t \<and> \<not> isBidiCharacter (t ! k)}"
        using True by (auto simp: Suc_le_eq order_le_less)
      show ?thesis
        using "1.IH"(2) [OF inb _ "1.prems"(1) less] inb True st
        by (subst (1 2) view_copy.simps) simp
    next
      case False
      have srt: "sorted_wrt (<) (ix @ [i])"
        using "1.prems" by (auto simp: sorted_wrt_append)
      have less: "\<forall>k \<in> set (ix @ [i]). k < i + 1" using "1.prems"(2) by auto
      have st: "{k. i \<le> k \<and> k < length t \<and> \<not> isBidiCharacter (t ! k)} =
                insert i {k. i + 1 \<le> k \<and> k < length t \<and> \<not> isBidiCharacter (t ! k)}"
        using False inb by (auto simp: Suc_le_eq order_le_less)
      show ?thesis
        using "1.IH"(1) [OF inb False srt less] inb False st
        by (subst (1 2) view_copy.simps) simp
    qed
  qed
qed

lemma view_copy_txt:
  "tx = map ((!) t) ix \<Longrightarrow>
   fst (view_copy t i tx ix) = map ((!) t) (snd (view_copy t i tx ix))"
  by (induction t i tx ix rule: view_copy.induct)
     (subst (1 2) view_copy.simps, simp)

text \<open>
  C7. The index map \<open>idx\<close> built by the constructor of the view is strictly increasing,
  and it holds exactly the original positions whose code point is none of U+202A, U+202B
  and U+202C: such a position is skipped, every other position is present. The text of
  the view is the original text read through the map.
\<close>

theorem view_idx_strictly_increasing_skips_bidi:
  "sorted_wrt (<) (idx (LayoutDataView_new t a e)) \<and>
   set (idx (LayoutDataView_new t a e)) =
     {k. k < length t \<and> t ! k \<notin> {0x202A, 0x202B, 0x202C}} \<and>
   txt32 (LayoutDataView_new t a e) = map ((!) t) (idx (LayoutDataView_new t a e))"
proof -
  have a: "sorted_wrt (<) (snd (view_copy t 0 [] [])) \<and>
        set (snd (view_copy t 0 [] [])) =
          set [] \<union> {k. 0 \<le> k \<and> k < length t \<and> \<not> isBidiCharacter (t ! k)}"
    by (rule view_copy_idx) simp_all
  have b: "fst (view_copy t 0 [] []) = map ((!) t) (snd (view_copy t 0 [] []))"
    by (rule view_copy_txt) simp
  have c: "{k. 0 \<le> k \<and> k < length t \<and> \<not> isBidiCharacter (t ! k)} =
        {k. k < length t \<and> t ! k \<notin> {0x202A, 0x202B, 0x202C}}"
    by (auto simp: isBidiCharacter_def)
  show ?thesis
    using a b c by (simp add: LayoutDataView_new_def split_beta)
qed


section \<open>The alignment of a line\<close>



section \<open>The demerits of a forced break\<close>





section \<open>The greedy line breaker takes an oversized group on an empty line\<close>

lemma fill_line_stops:
  "fill_line runs shape ypos runstart cur = Inr (cur', fb) \<Longrightarrow> \<not> fb \<Longrightarrow> l_spos cur' < length runs
   \<Longrightarrow> runstart < l_spos cur' \<and> overruns shape ypos (candidate runs cur')"
proof (induction runs shape ypos runstart cur rule: fill_line.induct)
  case (1 runs shape ypos runstart cur)
  from "1.prems" show ?case
    apply (subst (asm) fill_line.simps)
    apply (simp add: Let_def split: if_splits)
    using "1.IH" [OF _ refl _ refl]
       apply (auto simp: Let_def split: if_splits)
    done
qed

text \<open>
  C3. In the greedy line breaker a candidate group that would make the line wider than
  the column is rejected only when the line already holds a run. Filling a line from its
  first run \<open>runstart\<close>, whatever the shape: the first candidate group is taken over, so
  the line is not empty, even when it overruns; and when the line ends before the last
  run without a forced break, it holds a run and the next candidate group overruns.
\<close>

theorem greedy_commits_on_empty_line:
  assumes "fill_line runs shape ypos runstart cur = Inr (cur', fb)"
    and "l_spos cur = runstart" and "runstart < length runs"
  shows "l_spos (candidate runs cur) \<le> l_spos cur' \<and> runstart < l_spos cur'
         \<and> (\<not> fb \<and> l_spos cur' < length runs \<longrightarrow> overruns shape ypos (candidate runs cur'))"
  using fill_line_first [OF assms] fill_line_stops [OF assms(1)] candidate_spos_gt [of cur runs] assms(2)
  by auto

theorem greedy_commits_on_empty_line_witness:
  "fill_line ex_runs (ex_shape 50) 0 0 (ex_line 0 0 0 0) = Inr (ex_line 10 (- 2) 100 1, False)
   \<and> overruns (ex_shape 50) 0 (candidate ex_runs (ex_line 0 0 0 0))
   \<and> l_spos (candidate ex_runs (ex_line 0 0 0 0)) = 1
   \<and> overruns (ex_shape 50) 0 (candidate ex_runs (ex_line 10 (- 2) 100 1))"
proof -
  have filled: "fill_line ex_runs (ex_shape 50) 0 0 (ex_line 0 0 0 0) = Inr (ex_line 10 (- 2) 100 1, False)"
    by code_simp
  have start: "l_spos (ex_line 0 0 0 0) = 0" by (simp add: ex_line_def)
  have some: "0 < length ex_runs" by (simp add: ex_runs_def)
  have more: "overruns (ex_shape 50) 0 (candidate ex_runs (ex_line 0 0 0 0))
              \<and> l_spos (candidate ex_runs (ex_line 0 0 0 0)) = 1"
    by code_simp
  have "\<not> False \<and> l_spos (ex_line 10 (- 2) 100 1) < length ex_runs"
    by (simp add: ex_line_def ex_runs_def)
  then show ?thesis
    using greedy_commits_on_empty_line [OF filled start some] filled more by blast
qed

section \<open>The greedy line breaker terminates\<close>

lemma breakLines_bounded_enough:
  "length (g_runs s) - g_runstart s \<le> n \<Longrightarrow>
   breakLines_bounded n shape prop s = Some (breakLines_loop shape prop s)"
proof (induction n arbitrary: s)
  case 0
  then show ?case
    by (subst breakLines_bounded.simps, subst breakLines_loop.simps) simp
next
  case (Suc n)
  show ?case
  proof (cases "g_runstart s < length (g_runs s)")
    case False
    then show ?thesis
      by (subst breakLines_bounded.simps, subst breakLines_loop.simps) simp
  next
    case True
    show ?thesis
    proof (cases "breakLines_body shape prop s")
      case (Inl e)
      then show ?thesis using True
        by (subst breakLines_bounded.simps, subst breakLines_loop.simps) simp
    next
      case (Inr s')
      have "length (g_runs s') - g_runstart s' \<le> n"
        using breakLines_body_progress [OF Inr True] Suc.prems by linarith
      then have "breakLines_bounded n shape prop s' = Some (breakLines_loop shape prop s')"
        by (rule Suc.IH)
      then show ?thesis using True Inr
        by (subst breakLines_bounded.simps, subst breakLines_loop.simps) simp
    qed
  qed
qed

text \<open>
  C9. The greedy line breaker terminates on every list of runs. The outer loop, cut off
  after as many passes as there are runs from \<open>runstart\<close> on, returns what the loop
  returns: it is left within that many passes. And a pass that returns moves
  \<open>runstart\<close> strictly forward without passing the end of the runs, whose number it
  keeps: either it commits at least one run after the leading spaces, or it has only
  consumed leading spaces and reached the end.
\<close>

theorem greedy_breaker_terminates:
  "breakLines_bounded (length (g_runs s) - g_runstart s) shape prop s
     = Some (breakLines_loop shape prop s)
   \<and> (g_runstart s < length (g_runs s) \<and> breakLines_body shape prop s = Inr s' \<longrightarrow>
        g_runstart s < g_runstart s' \<and> g_runstart s' \<le> length (g_runs s')
        \<and> length (g_runs s') = length (g_runs s)
        \<and> (skip_spaces (g_runs s) (g_runstart s) < g_runstart s'
             \<or> (g_runstart s < skip_spaces (g_runs s) (g_runstart s)
                 \<and> g_runstart s' = length (g_runs s))))"
  using breakLines_bounded_enough [of s "length (g_runs s) - g_runstart s" shape]
    breakLines_body_progress [of shape _ s s']
  by blast

theorem greedy_breaker_terminates_witness:
  "g_runstart (ex_greedy ex_runs 0 0 TextLayout_new True) < length (g_runs (ex_greedy ex_runs 0 0 TextLayout_new True))
   \<and> breakLines_body (ex_shape 50) (ex_prop ALG_LEFT) (ex_greedy ex_runs 0 0 TextLayout_new True)
       = Inr (ex_greedy ex_runs 1 12 (TextLayout_new\<lparr>firstBaseline := 10\<rparr>) False)
   \<and> g_runstart (ex_greedy ex_runs 0 0 TextLayout_new True)
       < g_runstart (ex_greedy ex_runs 1 12 (TextLayout_new\<lparr>firstBaseline := 10\<rparr>) False)
   \<and> breakLines_bounded 2 (ex_shape 50) (ex_prop ALG_LEFT) (ex_greedy ex_runs 0 0 TextLayout_new True)
       = Some (Inr (ex_greedy ex_runs 2 24 (TextLayout_new\<lparr>firstBaseline := 10\<rparr>) False))"
proof -
  have body: "breakLines_body (ex_shape 50) (ex_prop ALG_LEFT) (ex_greedy ex_runs 0 0 TextLayout_new True)
       = Inr (ex_greedy ex_runs 1 12 (TextLayout_new\<lparr>firstBaseline := 10\<rparr>) False)"
    by code_simp
  have bounded: "breakLines_bounded 2 (ex_shape 50) (ex_prop ALG_LEFT) (ex_greedy ex_runs 0 0 TextLayout_new True)
       = Some (Inr (ex_greedy ex_runs 2 24 (TextLayout_new\<lparr>firstBaseline := 10\<rparr>) False))"
    by code_simp
  have less: "g_runstart (ex_greedy ex_runs 0 0 TextLayout_new True)
                < length (g_runs (ex_greedy ex_runs 0 0 TextLayout_new True))"
    by (simp add: ex_greedy_def ex_runs_def)
  show ?thesis
    using greedy_breaker_terminates [of "ex_greedy ex_runs 0 0 TextLayout_new True" "ex_shape 50" "ex_prop ALG_LEFT"
        "ex_greedy ex_runs 1 12 (TextLayout_new\<lparr>firstBaseline := 10\<rparr>) False"]
      body bounded less
    by simp
qed



section \<open>The language of the hyphenation dictionary\<close>

text \<open>
  C1. The claim is that every section is looked up by its own language, the language
  of the attribute at the start of the section. On the text ab, with a in English
  and b in German, \<^verbatim>\<open>getHyphens\<close> asks for the English dictionary twice: for the
  section of a, and for the section of b, whose language is German, because
  \<^verbatim>\<open>curLang\<close> is read from position 0.
\<close>

theorem getHyphens_asks_for_first_language:
  "getHyphens_lookups ex_an ex_view_en_de = [(0, 1, ''en''), (1, 2, ''en'')]
   \<and> lang (att ex_view_en_de 0) = ''en'' \<and> lang (att ex_view_en_de 1) = ''de''"
  by (simp add: ex_view_en_de_eq hyph_eval)

section \<open>Hyphenation points in words with a soft hyphen\<close>

text \<open>
  C2. The claim is that no hyphenation point is marked in a word in which the user has
  placed U+00AD. On the text table, space, ta U+00AD bl, whose space has no language, the
  second section starts at position 6 and its one word runs from 6 to 11 with U+00AD at
  position 8. \<^verbatim>\<open>getHyphens\<close> looks for U+00AD and takes the word from the positions
  0 to 5 of the whole text instead, finds none, hyphenates table and marks position
  6 + 1 + 1 = 8 inside the word that holds the soft hyphen.
\<close>

theorem getHyphens_marks_soft_hyphen_word:
  "(case getHyphens ex_an ex_view_shy of Inl e \<Rightarrow> [] | Inr v \<Rightarrow> hyphens v)
     = [False, False, True, False, False, False, False, False, True, False, False]
   \<and> getHyphens_lookups ex_an ex_view_shy = [(0, 5, ''en''), (6, 11, ''en'')]
   \<and> set_wordbreaks_utf32 ex_an (c_str_slice (txt32 ex_view_shy) 6 6) ''en'' = [1, 1, 1, 1, 0, 0]
   \<and> txt_at ex_view_shy 8 = SHY"
  by (simp add: ex_view_shy_eq hyph_eval)

section \<open>Glyphs with a vertical advance\<close>

















section \<open>The order of the layers\<close>














section \<open>The empty paragraph\<close>

lemma view_copy_all_bidi:
  "(\<forall>k. i \<le> k \<and> k < length t \<longrightarrow> isBidiCharacter (t ! k)) \<Longrightarrow> view_copy t i tx ix = (tx, ix)"
proof (induction t i tx ix rule: view_copy.induct)
  case (1 t i tx ix)
  show ?case
  proof (cases "i < length t")
    case False
    then show ?thesis by (subst view_copy.simps) simp
  next
    case True
    then have b: "isBidiCharacter (t ! i)" using "1.prems" by simp
    have "view_copy t (i + 1) tx ix = (tx, ix)"
      using "1.IH"(2) [OF True] b "1.prems" by simp
    then show ?thesis using True b by (subst view_copy.simps) simp
  qed
qed

lemma empty_view:
  assumes "\<forall>ch \<in> set t. isBidiCharacter ch"
  shows "LayoutDataView_new t a e =
           \<lparr>txt32 = [], idx = [], attr = a, embeddingLevels = e, linebreaks = [], hyphens = []\<rparr>"
proof -
  have "view_copy t 0 [] [] = ([], [])"
    using assms by (intro view_copy_all_bidi) simp
  then show ?thesis by (simp add: LayoutDataView_new_def)
qed

lemma getLinebreaks_empty: "vsize v = 0 \<Longrightarrow> getLinebreaks an v = v"
  by (simp add: getLinebreaks_def getLinebreaks_loop.simps)

lemma getHyphens_empty: "vsize v = 0 \<Longrightarrow> getHyphens an v = Inr v"
  by (simp add: getHyphens_def getHyphens_loop.simps)

lemma createTextRuns_empty: "vsize v = 0 \<Longrightarrow> createTextRuns shaper v prop = Inr []"
  by (simp add: createTextRuns_def createTextRuns_loop.simps)

lemma breakLines_empty:
  "breakLines [] shape prop ystart =
     Inr (TextLayout_new\<lparr>height := ystart, lay_left := getLeft2 shape ystart ystart,
                          lay_right := getRight2 shape ystart ystart\<rparr>)"
  by (simp add: breakLines_def breakLines_loop.simps)

lemma breakLinesOptimize_empty:
  "breakLinesOptimize [] shape prop ystart =
     Some (Inr (TextLayout_new\<lparr>height := ystart, lay_left := getLeft2 shape ystart ystart,
                                lay_right := getRight2 shape ystart ystart\<rparr>))"
  by (simp add: breakLinesOptimize_def opt_loop.simps lineinfo_zero_def)

text \<open>
  C10. For an empty text, and for a text of which every code point is one of U+202A,
  U+202B and U+202C, \<^verbatim>\<open>layoutParagraph\<close> returns a layout without commands and
  without links whose height is \<open>ystart\<close>, with the greedy and with the optimizing line
  breaker alike (the properties are arbitrary), provided the bidirectional algorithm of
  the library does not fail.
\<close>

theorem empty_paragraph_layout:
  assumes "\<forall>ch \<in> set t. isBidiCharacter ch" and "fst (fribidi t (ltr props)) \<noteq> 0"
  shows "layoutParagraph fribidi an shaper t a shape props ystart =
           Some (Inr \<lparr>data = [], links = [], firstBaseline = 0, height = ystart,
                      lay_left = getLeft2 shape ystart ystart,
                      lay_right = getRight2 shape ystart ystart\<rparr>)"
proof -
  obtain e where e: "getBidiEmbeddingLevels fribidi t props = Inr e"
    using assms(2) by (simp add: getBidiEmbeddingLevels_def Let_def)
  let ?v = "LayoutDataView_new t a e"
  have v0: "vsize ?v = 0" using empty_view [OF assms(1)] by (simp add: vsize_def)
  have lb: "getLinebreaks an ?v = ?v" using v0 by (rule getLinebreaks_empty)
  have hy: "(if hyphenate props then getHyphens an ?v else Inr ?v) = Inr ?v"
    using v0 by (simp add: getHyphens_empty)
  have runs: "createTextRuns shaper ?v props = Inr []" using v0 by (rule createTextRuns_empty)
  show ?thesis
    by (simp add: layoutParagraph_def analysed_view_def e lb hy runs breakLines_empty
          breakLinesOptimize_empty TextLayout_new_def Let_def)
qed

theorem empty_paragraph_layout_witness:
  "isBidiCharacter 0x202A \<and> isBidiCharacter 0x202B \<and> isBidiCharacter 0x202C
   \<and> layoutParagraph ex_bidi ex_an (ex_shaper 0) [0x202A, 0x202B, 0x202C] (AttributeIndex_new (ex_attr ''en''))
        (ex_shape 50) (ex_prop ALG_LEFT) 7
       = Some (Inr \<lparr>data = [], links = [], firstBaseline = 0, height = 7, lay_left = 0, lay_right = 50\<rparr>)
   \<and> layoutParagraph ex_bidi ex_an (ex_shaper 0) [] (AttributeIndex_new (ex_attr ''en''))
        (ex_shape 50) ((ex_prop ALG_LEFT)\<lparr>optimizeLinebreaks := True\<rparr>) 7
       = Some (Inr \<lparr>data = [], links = [], firstBaseline = 0, height = 7, lay_left = 0, lay_right = 50\<rparr>)"
proof -
  have bidi: "\<forall>ch \<in> set [0x202A, 0x202B, 0x202C]. isBidiCharacter ch"
    by (simp add: isBidiCharacter_def)
  have none: "\<forall>ch \<in> set []. isBidiCharacter ch" by simp
  have ok: "fst (ex_bidi [0x202A, 0x202B, 0x202C] (ltr (ex_prop ALG_LEFT))) \<noteq> 0"
    by (simp add: ex_bidi_def)
  have ok': "fst (ex_bidi [] (ltr ((ex_prop ALG_LEFT)\<lparr>optimizeLinebreaks := True\<rparr>))) \<noteq> 0"
    by (simp add: ex_bidi_def)
  show ?thesis
    using empty_paragraph_layout [where t = "[0x202A, 0x202B, 0x202C]" and fribidi = ex_bidi
        and props = "ex_prop ALG_LEFT" and an = ex_an and shaper = "ex_shaper 0"
        and a = "AttributeIndex_new (ex_attr ''en'')" and shape = "ex_shape 50" and ystart = 7,
        OF bidi ok]
      empty_paragraph_layout [where t = "[]" and fribidi = ex_bidi
        and props = "(ex_prop ALG_LEFT)\<lparr>optimizeLinebreaks := True\<rparr>" and an = ex_an
        and shaper = "ex_shaper 0" and a = "AttributeIndex_new (ex_attr ''en'')"
        and shape = "ex_shape 50" and ystart = 7, OF none ok']
    by (simp add: ex_shape_def isBidiCharacter_def)
qed


end
